theory Spec2Isabelle
  imports Main
begin

section \<open>The SCSS converter: variable extraction and the variables file\<close>

text \<open>
  This theory embeds the two functions of \<^verbatim>\<open>src/convert-to-scss.js\<close> that turn a parsed
  stylesheet into the text of \<^verbatim>\<open>base/_variables.scss\<close>: \<^verbatim>\<open>extractVariables\<close> (lines 78-134)
  and \<^verbatim>\<open>generateVariablesFile\<close> (lines 136-189). JavaScript strings are modelled as
  \<^typ>\<open>string\<close>, the insertion-ordered \<^verbatim>\<open>Set\<close> as a duplicate-free list, an exception as the
  left summand of the result, and the built-ins the two functions call
  (\<^verbatim>\<open>String.prototype.includes\<close>, \<^verbatim>\<open>String.prototype.match\<close> on the two regular expression
  literals, \<^verbatim>\<open>parseInt\<close>, \<^verbatim>\<open>Array.prototype.sort\<close>, template literals) by the functions of
  the first subsections.
\<close>

subsection \<open>Strings\<close>

text \<open>\<^verbatim>\<open>hay.includes(needle)\<close>: the needle occurs as a contiguous substring.\<close>

definition startsWith :: "string \<Rightarrow> string \<Rightarrow> bool" where
  "startsWith s p = (take (length p) s = p)"

fun str_includes :: "string \<Rightarrow> string \<Rightarrow> bool" where
  "str_includes [] needle = (needle = [])"
| "str_includes (c # cs) needle = (startsWith (c # cs) needle \<or> str_includes cs needle)"

text \<open>The decimal rendering of a non-negative integer, as a template literal prints it.\<close>

definition digit_char :: "nat \<Rightarrow> char" where
  "digit_char d = ''0123456789'' ! d"

fun string_of_nat :: "nat \<Rightarrow> string" where
  "string_of_nat n =
     (if n < 10 then [digit_char n] else string_of_nat (n div 10) @ [digit_char (n mod 10)])"

declare string_of_nat.simps [simp del]

subsection \<open>The two regular expressions\<close>

text \<open>
  \<^verbatim>\<open>str.match(re)\<close> with a regular expression without the \<^verbatim>\<open>g\<close> flag returns the match at
  the leftmost start position at which the expression matches, or \<^verbatim>\<open>null\<close>. The first
  argument of \<open>match_first\<close> is the expression anchored at the start of its argument.
\<close>

fun match_first :: "(string \<Rightarrow> string option) \<Rightarrow> string \<Rightarrow> string option" where
  "match_first m [] = m []"
| "match_first m (c # cs) =
     (case m (c # cs) of Some r \<Rightarrow> Some r | None \<Rightarrow> match_first m cs)"

definition is_digit :: "char \<Rightarrow> bool" where
  "is_digit c = (c \<in> set ''0123456789'')"

definition is_hex :: "char \<Rightarrow> bool" where
  "is_hex c = (c \<in> set ''0123456789abcdefABCDEF'')"

text \<open>
  \<^verbatim>\<open>\d+px\<close> anchored: one digit, then greedily more digits; where no further iteration
  leads to a match the expression backtracks to the literal \<^verbatim>\<open>px\<close>.
\<close>

fun px_at :: "string \<Rightarrow> string option" where
  "px_at [] = None"
| "px_at (c # cs) =
     (if is_digit c then
        (case px_at cs of
           Some r \<Rightarrow> Some (c # r)
         | None \<Rightarrow> if startsWith cs ''px'' then Some (c # ''px'') else None)
      else None)"

definition match_px :: "string \<Rightarrow> string option" where
  "match_px s = match_first px_at s"

text \<open>\<^verbatim>\<open>[0-9a-fA-F]{3,6}\<close>: the greedy quantifier takes up to \<open>k\<close> hexadecimal digits.\<close>

fun hex_run :: "nat \<Rightarrow> string \<Rightarrow> string" where
  "hex_run 0 s = []"
| "hex_run (Suc k) [] = []"
| "hex_run (Suc k) (c # cs) = (if is_hex c then c # hex_run k cs else [])"

definition hex_at :: "string \<Rightarrow> string option" where
  "hex_at s =
     (case s of
        [] \<Rightarrow> None
      | c # cs \<Rightarrow>
          if c = CHR ''#'' \<and> 3 \<le> length (hex_run 6 cs) then Some (c # hex_run 6 cs) else None)"

text \<open>
  \<^verbatim>\<open>[^)]+\)\<close> anchored: one character other than the closing parenthesis, then greedily
  more, backtracking to the literal closing parenthesis.
\<close>

fun body_at :: "string \<Rightarrow> string option" where
  "body_at [] = None"
| "body_at (c # cs) =
     (if c \<noteq> CHR '')'' then
        (case body_at cs of
           Some r \<Rightarrow> Some (c # r)
         | None \<Rightarrow> if startsWith cs '')'' then Some (c # '')'') else None)
      else None)"

text \<open>\<^verbatim>\<open>\([^)]+\)\<close> anchored.\<close>

definition paren_at :: "string \<Rightarrow> string option" where
  "paren_at s =
     (case s of
        [] \<Rightarrow> None
      | c # cs \<Rightarrow> if c = CHR ''('' then map_option ((#) c) (body_at cs) else None)"

text \<open>\<^verbatim>\<open>rgba?\([^)]+\)\<close> anchored: the optional \<^verbatim>\<open>a\<close> is tried first, then left out.\<close>

definition rgb_at :: "string \<Rightarrow> string option" where
  "rgb_at s =
     (if startsWith s ''rgb'' then
        (case (if startsWith (drop 3 s) ''a'' then paren_at (drop 4 s) else None) of
           Some r \<Rightarrow> Some (''rgba'' @ r)
         | None \<Rightarrow> map_option ((@) ''rgb'') (paren_at (drop 3 s)))
      else None)"

text \<open>The alternation tries the hexadecimal form first at each start position.\<close>

definition color_at :: "string \<Rightarrow> string option" where
  "color_at s = (case hex_at s of Some r \<Rightarrow> Some r | None \<Rightarrow> rgb_at s)"

definition match_color :: "string \<Rightarrow> string option" where
  "match_color s = match_first color_at s"

subsection \<open>Numbers\<close>

text \<open>
  A JavaScript number that is an integer or \<^verbatim>\<open>NaN\<close>; \<open>None\<close> is \<^verbatim>\<open>NaN\<close>. Integers are kept
  exact: JavaScript agrees as long as the magnitude stays below \<open>2^53\<close>, beyond which
  \<^verbatim>\<open>parseInt\<close> rounds to a double.
\<close>

type_synonym number = "int option"

text \<open>
  \<^verbatim>\<open>a === b\<close>, \<^verbatim>\<open>a <= b\<close>, \<^verbatim>\<open>a > b\<close> and \<^verbatim>\<open>a - b\<close> on numbers; every comparison with \<^verbatim>\<open>NaN\<close> is
  false, and a difference with \<^verbatim>\<open>NaN\<close> is \<^verbatim>\<open>NaN\<close>.
\<close>

definition num_eq :: "number \<Rightarrow> number \<Rightarrow> bool" where
  "num_eq a b = (case (a, b) of (Some x, Some y) \<Rightarrow> x = y | _ \<Rightarrow> False)"

definition num_le :: "number \<Rightarrow> number \<Rightarrow> bool" where
  "num_le a b = (case (a, b) of (Some x, Some y) \<Rightarrow> x \<le> y | _ \<Rightarrow> False)"

definition num_gt :: "number \<Rightarrow> number \<Rightarrow> bool" where
  "num_gt a b = (case (a, b) of (Some x, Some y) \<Rightarrow> x > y | _ \<Rightarrow> False)"

definition num_sub :: "number \<Rightarrow> number \<Rightarrow> number" where
  "num_sub a b = (case (a, b) of (Some x, Some y) \<Rightarrow> Some (x - y) | _ \<Rightarrow> None)"

text \<open>
  \<^verbatim>\<open>parseInt(str)\<close> without a radix: leading white space is skipped, a sign is read, a
  \<^verbatim>\<open>0x\<close> prefix selects radix 16, and the longest run of digits of the radix is the value;
  \<^verbatim>\<open>NaN\<close> when that run is empty. (White space is the ASCII part of the built-in's set.)
\<close>

definition is_space :: "char \<Rightarrow> bool" where
  "is_space c = (c \<in> set [CHR 0x09, CHR 0x0A, CHR 0x0B, CHR 0x0C, CHR 0x0D, CHR 0x20])"

definition digit_value :: "nat \<Rightarrow> char \<Rightarrow> nat option" where
  "digit_value radix c =
     (let n = (of_char c :: nat);
          v = (if 48 \<le> n \<and> n \<le> 57 then Some (n - 48)
               else if 97 \<le> n \<and> n \<le> 122 then Some (n - 87)
               else if 65 \<le> n \<and> n \<le> 90 then Some (n - 55)
               else None)
      in case v of None \<Rightarrow> None | Some k \<Rightarrow> if k < radix then Some k else None)"

definition radix_value :: "nat \<Rightarrow> string \<Rightarrow> nat" where
  "radix_value radix z =
     foldl (\<lambda>a c. a * radix + (case digit_value radix c of Some k \<Rightarrow> k | None \<Rightarrow> 0)) 0 z"

definition parseInt :: "string \<Rightarrow> number" where
  "parseInt str =
     (let s = dropWhile is_space str;
          negative = startsWith s ''-'';
          s = (if startsWith s ''-'' \<or> startsWith s ''+'' then drop 1 s else s);
          hex = (startsWith s ''0x'' \<or> startsWith s ''0X'');
          radix = (if hex then 16 else 10);
          s = (if hex then drop 2 s else s);
          z = takeWhile (\<lambda>c. digit_value radix c \<noteq> None) s
      in if z = [] then None
         else Some ((if negative then - 1 else 1) * int (radix_value radix z)))"

subsection \<open>Sets and sorting\<close>

text \<open>\<^verbatim>\<open>set.add(x)\<close> on a \<^verbatim>\<open>Set\<close>, kept as the list of its elements in insertion order.\<close>

definition set_add :: "'a list \<Rightarrow> 'a \<Rightarrow> 'a list" where
  "set_add xs x = (if x \<in> set xs then xs else xs @ [x])"

text \<open>
  \<^verbatim>\<open>array.sort(compare)\<close>. The language fixes the result for a consistent comparator: the
  stable arrangement in which \<^verbatim>\<open>compare(a, b) > 0\<close> never holds for an \<^verbatim>\<open>a\<close> placed before
  \<^verbatim>\<open>b\<close>; a \<^verbatim>\<open>NaN\<close> from the comparator counts as \<open>0\<close>. The model is the stable insertion sort.
\<close>

fun insert_sorted :: "('a \<Rightarrow> 'a \<Rightarrow> number) \<Rightarrow> 'a \<Rightarrow> 'a list \<Rightarrow> 'a list" where
  "insert_sorted compare x [] = [x]"
| "insert_sorted compare x (y # ys) =
     (if num_gt (compare x y) (Some 0) then y # insert_sorted compare x ys else x # y # ys)"

definition array_sort :: "('a \<Rightarrow> 'a \<Rightarrow> number) \<Rightarrow> 'a list \<Rightarrow> 'a list" where
  "array_sort compare xs = foldr (insert_sorted compare) xs []"

subsection \<open>The parse tree\<close>

text \<open>
  The nodes that \<^verbatim>\<open>css.parse\<close> delivers, with the fields the converter reads. A field that
  an object does not carry reads as \<^verbatim>\<open>undefined\<close>, here \<open>None\<close>. An entry of \<^verbatim>\<open>declarations\<close>
  is a declaration or a comment; a node of \<^verbatim>\<open>rules\<close> is a rule, a media rule (with its
  condition in \<^verbatim>\<open>media\<close> and its nested nodes in \<^verbatim>\<open>rules\<close>), or of another type.
  The fields \<^verbatim>\<open>type\<close> and \<^verbatim>\<open>value\<close> are \<open>decl_type\<close>, \<open>node_type\<close> and \<open>decl_value\<close> here.
\<close>

datatype decl = Decl (decl_type: string) (property: "string option") (decl_value: "string option")

datatype node =
  Node (node_type: string) (declarations: "decl list option") (media: "string option")
       (rules: "node list")

datatype js_error = TypeError

text \<open>\<^verbatim>\<open>list.forEach(f)\<close> where \<open>f\<close> updates the state \<open>s\<close> or throws.\<close>

fun forEach :: "('a \<Rightarrow> 's \<Rightarrow> js_error + 's) \<Rightarrow> 'a list \<Rightarrow> 's \<Rightarrow> js_error + 's" where
  "forEach f [] s = Inr s"
| "forEach f (x # xs) s = (case f x s of Inl e \<Rightarrow> Inl e | Inr s' \<Rightarrow> forEach f xs s')"

subsection \<open>extractVariables\<close>

text \<open>The three sets of lines 79-81.\<close>

record sets =
  colors_set :: "string list"
  spacing_set :: "string list"
  breakpoints_set :: "string list"

definition empty_sets :: sets where
  "empty_sets = \<lparr>colors_set = [], spacing_set = [], breakpoints_set = []\<rparr>"

text \<open>The result object of lines 125-133.\<close>

record variables =
  colors :: "string list"
  spacing :: "string list"
  breakpoints :: "string list"

text \<open>
  Lines 89-99. \<^verbatim>\<open>decl.property && ...\<close> is false for an undefined and for an empty property;
  \<^verbatim>\<open>decl.value.match\<close> throws a \<^verbatim>\<open>TypeError\<close> when the value is undefined.
\<close>

definition extract_color :: "decl \<Rightarrow> sets \<Rightarrow> js_error + sets" where
  "extract_color d s =
     (case property d of
        None \<Rightarrow> Inr s
      | Some p \<Rightarrow>
          if p \<noteq> [] \<and> (str_includes p ''color'' \<or> str_includes p ''background'' \<or> str_includes p ''border'')
          then (case decl_value d of
                  None \<Rightarrow> Inl TypeError
                | Some v \<Rightarrow>
                    (case match_color v of
                       Some m \<Rightarrow> Inr (s\<lparr>colors_set := set_add (colors_set s) m\<rparr>)
                     | None \<Rightarrow> Inr s))
          else Inr s)"

text \<open>Lines 102-111.\<close>

definition extract_spacing :: "decl \<Rightarrow> sets \<Rightarrow> js_error + sets" where
  "extract_spacing d s =
     (case property d of
        None \<Rightarrow> Inr s
      | Some p \<Rightarrow>
          if p \<noteq> [] \<and> (str_includes p ''margin'' \<or> str_includes p ''padding'')
          then (case decl_value d of
                  None \<Rightarrow> Inl TypeError
                | Some v \<Rightarrow>
                    (case match_px v of
                       Some m \<Rightarrow> Inr (s\<lparr>spacing_set := set_add (spacing_set s) m\<rparr>)
                     | None \<Rightarrow> Inr s))
          else Inr s)"

text \<open>The callback of the inner \<^verbatim>\<open>forEach\<close>, lines 86-113.\<close>

definition visit_decl :: "decl \<Rightarrow> sets \<Rightarrow> js_error + sets" where
  "visit_decl d s =
     (if decl_type d = ''declaration'' then
        (case extract_color d s of Inl e \<Rightarrow> Inl e | Inr s' \<Rightarrow> extract_spacing d s')
      else Inr s)"

text \<open>Lines 117-122.\<close>

definition extract_breakpoint :: "node \<Rightarrow> sets \<Rightarrow> js_error + sets" where
  "extract_breakpoint r s =
     (if node_type r = ''media'' then
        (case media r of
           None \<Rightarrow> Inl TypeError
         | Some c \<Rightarrow>
             (case match_px c of
                Some m \<Rightarrow> Inr (s\<lparr>breakpoints_set := set_add (breakpoints_set s) m\<rparr>)
              | None \<Rightarrow> Inr s))
      else Inr s)"

text \<open>The callback of the outer \<^verbatim>\<open>forEach\<close>, lines 84-123. The nested \<^verbatim>\<open>rules\<close> are not read.\<close>

definition visit_rule :: "node \<Rightarrow> sets \<Rightarrow> js_error + sets" where
  "visit_rule r s =
     (case (case declarations r of
              Some ds \<Rightarrow> if node_type r = ''rule'' then forEach visit_decl ds s else Inr s
            | None \<Rightarrow> Inr s) of
        Inl e \<Rightarrow> Inl e
      | Inr s' \<Rightarrow> extract_breakpoint r s')"

definition collect :: "node list \<Rightarrow> js_error + sets" where
  "collect stylesheet_rules = forEach visit_rule stylesheet_rules empty_sets"

text \<open>The comparator of lines 127-129 and 130-132.\<close>

definition compare_px :: "string \<Rightarrow> string \<Rightarrow> number" where
  "compare_px a b = num_sub (parseInt a) (parseInt b)"

text \<open>The argument is \<^verbatim>\<open>parsedCSS.stylesheet.rules\<close>.\<close>

definition extractVariables :: "node list \<Rightarrow> js_error + variables" where
  "extractVariables stylesheet_rules =
     (case collect stylesheet_rules of
        Inl e \<Rightarrow> Inl e
      | Inr s \<Rightarrow>
          Inr \<lparr>colors = colors_set s,
               spacing = array_sort compare_px (spacing_set s),
               breakpoints = array_sort compare_px (breakpoints_set s)\<rparr>)"

subsection \<open>generateVariablesFile\<close>

text \<open>The template \<^verbatim>\<open>`$${name}: ${value};\n`\<close> of lines 148, 170 and 185.\<close>

definition assignment :: "string \<Rightarrow> string \<Rightarrow> string" where
  "assignment name v = ''$'' @ name @ '': '' @ v @ '';\<newline>''"

text \<open>Lines 142-146: the later assignments to \<^verbatim>\<open>name\<close> override the earlier ones.\<close>

definition color_name :: "string \<Rightarrow> nat \<Rightarrow> string" where
  "color_name color index =
     (let name = ''color-'' @ string_of_nat (index + 1);
          name = (if color = ''#0d0c0d'' then ''color-dark'' else name);
          name = (if color = ''#f0f0f0'' then ''color-light'' else name);
          name = (if color = ''#e6ac55'' then ''color-accent'' else name);
          name = (if color = ''#FFFFFF'' \<or> color = ''#ffffff'' then ''color-white'' else name)
      in name)"

text \<open>Lines 157-163; \<open>sz\<close> is the source's \<^verbatim>\<open>size\<close>.\<close>

definition spacing_bucket :: "number \<Rightarrow> string" where
  "spacing_bucket sz =
     (if num_eq sz (Some 0) then ''none''
      else if num_le sz (Some 4) then ''xs''
      else if num_le sz (Some 8) then ''sm''
      else if num_le sz (Some 16) then ''md''
      else if num_le sz (Some 24) then ''lg''
      else if num_le sz (Some 32) then ''xl''
      else ''xxl'')"

text \<open>Lines 154-168; the first argument is \<^verbatim>\<open>variables.spacing\<close>.\<close>

definition spacing_name :: "string list \<Rightarrow> string \<Rightarrow> nat \<Rightarrow> string" where
  "spacing_name all_spacing v index =
     (let sz = parseInt v;
          name = ''spacing-'' @ spacing_bucket sz;
          name = (if length (filter (\<lambda>s. num_eq (parseInt s) sz) all_spacing) > 1
                  then name @ ''-'' @ string_of_nat index else name)
      in name)"

text \<open>Lines 179-183.\<close>

definition breakpoint_bucket :: "number \<Rightarrow> string" where
  "breakpoint_bucket sz =
     (if num_le sz (Some 480) then ''mobile''
      else if num_le sz (Some 768) then ''tablet''
      else if num_le sz (Some 1024) then ''desktop''
      else if num_le sz (Some 1280) then ''widescreen''
      else ''ultrawide'')"

definition breakpoint_name :: "string \<Rightarrow> string" where
  "breakpoint_name v = ''breakpoint-'' @ breakpoint_bucket (parseInt v)"

text \<open>
  Lines 136-189. Each \<^verbatim>\<open>forEach\<close> appends one assignment per entry to \<^verbatim>\<open>scss\<close>; the callback
  receives the entry and its index.
\<close>

definition generateVariablesFile :: "variables \<Rightarrow> string" where
  "generateVariablesFile vars =
     (let scss = ''// Color Variables\<newline>'';
          scss = foldl (\<lambda>scss (index, color). scss @ assignment (color_name color index) color)
                   scss (enumerate 0 (colors vars));
          scss = scss @ ''\<newline>// Spacing Variables\<newline>'';
          scss = foldl (\<lambda>scss (index, v).
                     scss @ assignment (spacing_name (spacing vars) v index) v)
                   scss (enumerate 0 (spacing vars));
          scss = scss @ ''\<newline>// Breakpoint Variables\<newline>'';
          scss = foldl (\<lambda>scss v. scss @ assignment (breakpoint_name v) v)
                   scss (breakpoints vars)
      in scss)"

text \<open>Lines 39-42 of \<^verbatim>\<open>convertToSCSS\<close>: the text written to \<^verbatim>\<open>base/_variables.scss\<close>.\<close>

definition variables_text :: "node list \<Rightarrow> js_error + string" where
  "variables_text stylesheet_rules =
     (case extractVariables stylesheet_rules of
        Inl e \<Rightarrow> Inl e
      | Inr vars \<Rightarrow> Inr (generateVariablesFile vars))"

subsection \<open>The assignments as a list\<close>

text \<open>
  The pairs of a name and a value for which the three loops of \<^verbatim>\<open>generateVariablesFile\<close>
  append an assignment, in the order of the loops.
\<close>

definition color_variables :: "variables \<Rightarrow> (string \<times> string) list" where
  "color_variables vars =
     map (\<lambda>(index, color). (color_name color index, color)) (enumerate 0 (colors vars))"

definition spacing_variables :: "variables \<Rightarrow> (string \<times> string) list" where
  "spacing_variables vars =
     map (\<lambda>(index, v). (spacing_name (spacing vars) v index, v)) (enumerate 0 (spacing vars))"

definition breakpoint_variables :: "variables \<Rightarrow> (string \<times> string) list" where
  "breakpoint_variables vars = map (\<lambda>v. (breakpoint_name v, v)) (breakpoints vars)"

text \<open>An assignment without its line terminator.\<close>

definition variable_line :: "string \<times> string \<Rightarrow> string" where
  "variable_line nv = ''$'' @ fst nv @ '': '' @ snd nv @ '';''"

subsection \<open>Predicates of the specification\<close>

text \<open>One or more decimal digits, immediately followed by \<^verbatim>\<open>px\<close>.\<close>

definition is_px_token :: "string \<Rightarrow> bool" where
  "is_px_token s = (takeWhile is_digit s \<noteq> [] \<and> dropWhile is_digit s = ''px'')"

text \<open>The integer that the digits of such a token denote.\<close>

definition px_magnitude :: "string \<Rightarrow> nat" where
  "px_magnitude s = radix_value 10 (takeWhile is_digit s)"

text \<open>The px token of magnitude \<open>n\<close> written with \<open>z\<close> leading zeros.\<close>

definition px_token :: "nat \<Rightarrow> nat \<Rightarrow> string" where
  "px_token z n = replicate z (CHR ''0'') @ string_of_nat n @ ''px''"

text \<open>
  Some px token starts at position \<open>k\<close> of \<open>x\<close>; and \<open>tok\<close> is the first integer-px token
  of \<open>x\<close>: a px token that occurs at the leftmost position at which one starts.
\<close>

definition px_token_at :: "string \<Rightarrow> nat \<Rightarrow> bool" where
  "px_token_at x k = list_ex (\<lambda>n. is_px_token (take n (drop k x))) [0..<Suc (length x)]"

definition first_px_token :: "string \<Rightarrow> string \<Rightarrow> bool" where
  "first_px_token tok x =
     (is_px_token tok \<and>
      list_ex (\<lambda>k. take (length tok) (drop k x) = tok \<and>
                   list_all (\<lambda>j. \<not> px_token_at x j) [0..<k]) [0..<Suc (length x)])"

text \<open>A \<^verbatim>\<open>#\<close> followed by three to six hexadecimal digits.\<close>

definition is_hex_token :: "string \<Rightarrow> bool" where
  "is_hex_token s =
     (case s of
        [] \<Rightarrow> False
      | c # cs \<Rightarrow> c = CHR ''#'' \<and> 3 \<le> length cs \<and> length cs \<le> 6 \<and> list_all is_hex cs)"

text \<open>
  An opening parenthesis, one or more characters other than the closing parenthesis, and
  the closing parenthesis.
\<close>

definition is_paren_group :: "string \<Rightarrow> bool" where
  "is_paren_group s =
     (case s of
        [] \<Rightarrow> False
      | c # cs \<Rightarrow>
          c = CHR ''('' \<and> 2 \<le> length cs \<and> last cs = CHR '')'' \<and> CHR '')'' \<notin> set (butlast cs))"

definition is_rgb_token :: "string \<Rightarrow> bool" where
  "is_rgb_token s =
     ((startsWith s ''rgb'' \<and> is_paren_group (drop 3 s)) \<or>
      (startsWith s ''rgba'' \<and> is_paren_group (drop 4 s)))"

definition is_color_token :: "string \<Rightarrow> bool" where
  "is_color_token s = (is_hex_token s \<or> is_rgb_token s)"

text \<open>The thresholds in the words of the specification, on the pixel magnitude.\<close>

definition spec_spacing_bucket :: "nat \<Rightarrow> string" where
  "spec_spacing_bucket n =
     (if n = 0 then ''none''
      else if n \<le> 4 then ''xs''
      else if n \<le> 8 then ''sm''
      else if n \<le> 16 then ''md''
      else if n \<le> 24 then ''lg''
      else if n \<le> 32 then ''xl''
      else ''xxl'')"

definition spec_breakpoint_bucket :: "nat \<Rightarrow> string" where
  "spec_breakpoint_bucket n =
     (if n \<le> 480 then ''mobile''
      else if n \<le> 768 then ''tablet''
      else if n \<le> 1024 then ''desktop''
      else if n \<le> 1280 then ''widescreen''
      else ''ultrawide'')"

text \<open>The naming table of the specification: four overrides, else the 1-based index.\<close>

definition spec_color_name :: "string \<Rightarrow> nat \<Rightarrow> string" where
  "spec_color_name color i =
     (case map_of [(''#0d0c0d'', ''color-dark''), (''#f0f0f0'', ''color-light''),
                   (''#e6ac55'', ''color-accent''), (''#FFFFFF'', ''color-white''),
                   (''#ffffff'', ''color-white'')] color of
        Some name \<Rightarrow> name
      | None \<Rightarrow> ''color-'' @ string_of_nat (i + 1))"





text \<open>
  A structurally valid parse tree, as \<^verbatim>\<open>css.parse\<close> builds it: a declaration carries its
  property and its value as strings (the value is the empty string where the source text
  has none), a rule carries its declarations, a media rule its condition and valid nested
  nodes.
\<close>

definition valid_decl :: "decl \<Rightarrow> bool" where
  "valid_decl d =
     (if decl_type d = ''declaration'' then property d \<noteq> None \<and> decl_value d \<noteq> None
      else True)"

fun valid_node :: "node \<Rightarrow> bool" where
  "valid_node (Node t ds m rs) =
     (if t = ''rule'' then (case ds of None \<Rightarrow> False | Some l \<Rightarrow> list_all valid_decl l)
      else if t = ''media'' then m \<noteq> None \<and> list_all valid_node rs
      else True)"

definition valid_stylesheet :: "node list \<Rightarrow> bool" where
  "valid_stylesheet t = list_all valid_node t"

text \<open>
  What the converter reads of a top-level node: its type, the declarations where the
  type is \<^verbatim>\<open>rule\<close>, the condition where the type is \<^verbatim>\<open>media\<close>.
\<close>

fun inspected :: "node \<Rightarrow> string \<times> decl list option \<times> string option" where
  "inspected (Node t ds m rs) =
     (t, (if t = ''rule'' then ds else None), (if t = ''media'' then m else None))"

text \<open>The node without its nested nodes.\<close>

fun without_nested :: "node \<Rightarrow> node" where
  "without_nested (Node t ds m rs) = Node t ds m []"

text \<open>The lines of a text, as \<^verbatim>\<open>text.split('\n')\<close> returns them.\<close>

fun split_lines :: "string \<Rightarrow> string list" where
  "split_lines [] = [[]]"
| "split_lines (c # cs) =
     (if c = CHR 0x0A then [] # split_lines cs
      else (case split_lines cs of [] \<Rightarrow> [[c]] | l # ls \<Rightarrow> (c # l) # ls))"

text \<open>A line of the shape \<^verbatim>\<open>$name: value;\<close>.\<close>

definition is_assignment_line :: "string \<Rightarrow> bool" where
  "is_assignment_line l =
     (startsWith l ''$'' \<and> l \<noteq> [] \<and> last l = CHR '';'' \<and> str_includes (butlast (drop 1 l)) '': '')"

definition is_header_line :: "string \<Rightarrow> bool" where
  "is_header_line l =
     (l = ''// Color Variables'' \<or> l = ''// Spacing Variables'' \<or> l = ''// Breakpoint Variables'')"

text \<open>Every line of the text is a header, an assignment or empty.\<close>

definition one_assignment_per_line :: "string \<Rightarrow> bool" where
  "one_assignment_per_line scss =
     list_all (\<lambda>l. is_header_line l \<or> l = [] \<or> is_assignment_line l) (split_lines scss)"

subsection \<open>Invariant of the traversal\<close>

definition well_formed :: "sets \<Rightarrow> bool" where
  "well_formed s =
     (distinct (colors_set s) \<and> distinct (spacing_set s) \<and> distinct (breakpoints_set s) \<and>
      list_all is_color_token (colors_set s) \<and>
      list_all is_px_token (spacing_set s) \<and>
      list_all is_px_token (breakpoints_set s))"

text \<open>The sort key that the comparator induces on strings that \<^verbatim>\<open>parseInt\<close> reads.\<close>

definition px_key :: "string \<Rightarrow> int" where
  "px_key s = (case parseInt s of Some n \<Rightarrow> n | None \<Rightarrow> 0)"

subsection \<open>Example stylesheets\<close>

text \<open>\<^verbatim>\<open>a { margin: 8px 0 8px 0; padding: 16px 16px 16px 16px }\<close>\<close>

definition spec_spacing :: "node list" where
  "spec_spacing =
     [Node ''rule''
        (Some [Decl ''declaration'' (Some ''margin'') (Some ''8px 0 8px 0''),
               Decl ''declaration'' (Some ''padding'') (Some ''16px 16px 16px 16px'')])
        None []]"

text \<open>\<^verbatim>\<open>@media (max-width: 600px) {}\<close>\<close>

definition spec_media :: "node list" where
  "spec_media = [Node ''media'' None (Some ''(max-width: 600px)'') []]"

text \<open>A rule with eight color declarations, among them the five override values.\<close>

definition brand_colors :: "node list" where
  "brand_colors =
     [Node ''rule''
        (Some [Decl ''declaration'' (Some ''color'') (Some ''#123456''),
               Decl ''declaration'' (Some ''background-color'') (Some ''#e6ac55''),
               Decl ''declaration'' (Some ''border'') (Some ''1px solid #FFFFFF''),
               Decl ''declaration'' (Some ''color'') (Some ''#ffffff''),
               Decl ''declaration'' (Some ''color'') (Some ''#E6AC55''),
               Decl ''declaration'' (Some ''color'') (Some ''#0d0c0d''),
               Decl ''declaration'' (Some ''color'') (Some ''#f0f0f0''),
               Decl ''declaration'' (Some ''outline-color'') (Some ''rgba(0, 0, 0, 0.5)'')])
        None []]"

text \<open>\<^verbatim>\<open>@media (max-width: 320px) {}\<close> \<^verbatim>\<open>@media (max-width: 480px) {}\<close>\<close>

definition two_breakpoints :: "node list" where
  "two_breakpoints =
     [Node ''media'' None (Some ''(max-width: 320px)'') [],
      Node ''media'' None (Some ''(max-width: 480px)'') []]"



text \<open>
  A comment, \<^verbatim>\<open>a { color: ; /* c */ margin: auto; padding: 2em 4px }\<close> and
  \<^verbatim>\<open>@media print { b { border-color: red } }\<close>.
\<close>

definition unmatched :: "node list" where
  "unmatched =
     [Node ''comment'' None None [],
      Node ''rule''
        (Some [Decl ''declaration'' (Some ''color'') (Some ''''),
               Decl ''comment'' None None,
               Decl ''declaration'' (Some ''margin'') (Some ''auto''),
               Decl ''declaration'' (Some ''padding'') (Some ''2em 4px'')])
        None [],
      Node ''media'' None (Some ''print'')
        [Node ''rule'' (Some [Decl ''declaration'' (Some ''border-color'') (Some ''red'')]) None []]]"

text \<open>
  \<^verbatim>\<open>a { margin-top: 0 auto 12px 4px }\<close> and
  \<^verbatim>\<open>@media (max-width: 600px) { b { margin: 8px } }\<close>.
\<close>

definition nested_margin :: "node list" where
  "nested_margin =
     [Node ''rule'' (Some [Decl ''declaration'' (Some ''margin-top'') (Some ''0 auto 12px 4px'')])
        None [],
      Node ''media'' None (Some ''(max-width: 600px)'')
        [Node ''rule'' (Some [Decl ''declaration'' (Some ''margin'') (Some ''8px'')]) None []]]"



text \<open>\<^verbatim>\<open>a { background: rgb(0,\<close> (line break) \<^verbatim>\<open>0,0) }\<close>\<close>

definition multiline_color :: "node list" where
  "multiline_color =
     [Node ''rule'' (Some [Decl ''declaration'' (Some ''background'') (Some ''rgb(0,\<newline>0,0)'')])
        None []]"

section \<open>Properties\<close>

subsection \<open>What the regular expressions match\<close>

lemma match_first_SomeD:
  "match_first m s = Some r \<Longrightarrow> \<exists>pre post. s = pre @ post \<and> m post = Some r"
proof (induction s)
  case Nil
  then show ?case by simp
next
  case (Cons c cs)
  show ?case
  proof (cases "m (c # cs)")
    case None
    with Cons obtain pre post where "cs = pre @ post" "m post = Some r" by auto
    then have "c # cs = (c # pre) @ post \<and> m post = Some r" by simp
    then show ?thesis by blast
  next
    case (Some a)
    with Cons.prems have "c # cs = [] @ (c # cs) \<and> m (c # cs) = Some r" by simp
    then show ?thesis by blast
  qed
qed

lemma not_digit_p [simp]: "\<not> is_digit (CHR ''p'')"
  by (simp add: is_digit_def)

lemma px_at_token: "px_at s = Some r \<Longrightarrow> is_px_token r"
proof (induction s arbitrary: r)
  case Nil
  then show ?case by simp
next
  case (Cons c cs)
  from Cons.prems have d: "is_digit c" by (simp split: if_splits)
  show ?case
  proof (cases "px_at cs")
    case None
    with Cons.prems d have "r = c # ''px''" by (simp split: if_splits)
    with d show ?thesis by (simp add: is_px_token_def)
  next
    case (Some r')
    with Cons.prems d have r: "r = c # r'" by simp
    from Cons.IH [OF Some] have "is_px_token r'" .
    with d r show ?thesis by (simp add: is_px_token_def)
  qed
qed

lemma match_px_token: "match_px s = Some r \<Longrightarrow> is_px_token r"
  unfolding match_px_def by (auto dest!: match_first_SomeD px_at_token)

lemma hex_run_props: "length (hex_run k s) \<le> k \<and> list_all is_hex (hex_run k s)"
  by (induction k s rule: hex_run.induct) auto

lemma hex_at_token: "hex_at s = Some r \<Longrightarrow> is_hex_token r"
  using hex_run_props [of 6 "tl s"]
  by (auto simp: hex_at_def is_hex_token_def list_all_iff split: list.splits if_splits)

lemma body_at_shape:
  "body_at s = Some r \<Longrightarrow> 2 \<le> length r \<and> last r = CHR '')'' \<and> CHR '')'' \<notin> set (butlast r)"
proof (induction s arbitrary: r)
  case Nil
  then show ?case by simp
next
  case (Cons c cs)
  from Cons.prems have d: "c \<noteq> CHR '')''" by (simp split: if_splits)
  show ?case
  proof (cases "body_at cs")
    case None
    with Cons.prems d have "r = c # '')''" by (simp split: if_splits)
    with d show ?thesis by simp
  next
    case (Some r')
    with Cons.prems d have r: "r = c # r'" by simp
    from Cons.IH [OF Some] have "2 \<le> length r' \<and> last r' = CHR '')'' \<and> CHR '')'' \<notin> set (butlast r')" .
    with d r show ?thesis by auto
  qed
qed

lemma paren_at_group: "paren_at s = Some r \<Longrightarrow> is_paren_group r"
  by (auto simp: paren_at_def is_paren_group_def split: list.splits if_splits dest: body_at_shape)

lemma rgb_at_token: "rgb_at s = Some r \<Longrightarrow> is_rgb_token r"
  by (auto simp: rgb_at_def is_rgb_token_def startsWith_def
      split: if_splits option.splits dest: paren_at_group)

lemma match_color_token: "match_color s = Some r \<Longrightarrow> is_color_token r"
  unfolding match_color_def
  by (auto simp: color_at_def is_color_token_def split: option.splits
      dest!: match_first_SomeD dest: hex_at_token rgb_at_token)

subsection \<open>\<^verbatim>\<open>parseInt\<close> on px tokens\<close>

lemma of_char_nat_inj: "(of_char c :: nat) = of_char d \<Longrightarrow> c = d"
  by (simp only: of_char_eq_iff)

lemma is_digit_code: "is_digit c \<longleftrightarrow> 48 \<le> (of_char c :: nat) \<and> (of_char c :: nat) \<le> 57"
proof
  assume "is_digit c"
  then show "48 \<le> (of_char c :: nat) \<and> (of_char c :: nat) \<le> 57"
    by (auto simp: is_digit_def)
next
  assume a: "48 \<le> (of_char c :: nat) \<and> (of_char c :: nat) \<le> 57"
  define n where "n = (of_char c :: nat)"
  from a have "n = 48 \<or> n = 49 \<or> n = 50 \<or> n = 51 \<or> n = 52 \<or> n = 53 \<or> n = 54 \<or> n = 55 \<or> n = 56 \<or> n = 57"
    unfolding n_def by arith
  then have "n \<in> of_char ` set ''0123456789''" by auto
  then obtain d where "d \<in> set ''0123456789''" "of_char c = (of_char d :: nat)"
    unfolding n_def by blast
  then show "is_digit c" unfolding is_digit_def using of_char_nat_inj by blast
qed

lemma digit_value_10: "digit_value 10 c \<noteq> None \<longleftrightarrow> is_digit c"
  by (auto simp: digit_value_def Let_def is_digit_code)

lemma not_space_digit: "is_digit c \<Longrightarrow> \<not> is_space c"
  by (auto simp: is_digit_def is_space_def)

lemma parseInt_px_token:
  assumes "is_px_token s"
  shows "parseInt s = Some (int (px_magnitude s))"
proof -
  from assms obtain c cs where s: "s = c # cs" and d: "is_digit c"
    by (cases s) (auto simp: is_px_token_def split: if_splits)
  from assms s d have cs: "cs \<noteq> []" by (auto simp: is_px_token_def)
  then obtain e es where es: "cs = e # es" by (cases cs) auto
  from assms s d es have e: "is_digit e \<or> e = CHR ''p''"
    by (auto simp: is_px_token_def split: if_splits)
  have 1: "dropWhile is_space s = s" using s d by (simp add: not_space_digit)
  have 2: "\<not> startsWith s ''-''" "\<not> startsWith s ''+''"
    using s d by (auto simp: startsWith_def is_digit_def)
  have 3: "\<not> startsWith s ''0x''" "\<not> startsWith s ''0X''"
    using s es e by (auto simp: startsWith_def is_digit_def)
  have 4: "(\<lambda>c. \<exists>y. digit_value 10 c = Some y) = is_digit"
    using digit_value_10 by (auto simp: fun_eq_iff)
  have 5: "takeWhile is_digit s \<noteq> []" using assms by (simp add: is_px_token_def)
  show ?thesis
    unfolding parseInt_def Let_def px_magnitude_def 1 using 2 3 5 by (simp add: 4)
qed

subsection \<open>The comparator sorts by key\<close>

text \<open>On strings that \<^verbatim>\<open>parseInt\<close> reads, the sort is the stable sort by the integer read.\<close>

lemma insert_sorted_insort:
  "parseInt x \<noteq> None \<Longrightarrow> \<forall>y \<in> set ys. parseInt y \<noteq> None \<Longrightarrow>
   insert_sorted compare_px x ys = insort_key px_key x ys"
  by (induction ys) (auto simp: compare_px_def num_sub_def num_gt_def px_key_def)

lemma array_sort_sort_key:
  "\<forall>y \<in> set xs. parseInt y \<noteq> None \<Longrightarrow> array_sort compare_px xs = sort_key px_key xs"
proof (induction xs)
  case Nil
  then show ?case by (simp add: array_sort_def)
next
  case (Cons x xs)
  then have ih: "array_sort compare_px xs = sort_key px_key xs" by simp
  have "\<forall>y \<in> set (sort_key px_key xs). parseInt y \<noteq> None" using Cons.prems by simp
  with Cons.prems have "insert_sorted compare_px x (sort_key px_key xs) = insort_key px_key x (sort_key px_key xs)"
    by (intro insert_sorted_insort) auto
  with ih show ?case by (simp add: array_sort_def)
qed

subsection \<open>The traversal\<close>

lemma forEach_invariant:
  assumes "forEach f xs s = Inr s'" and "P s"
    and "\<And>x a b. x \<in> set xs \<Longrightarrow> P a \<Longrightarrow> f x a = Inr b \<Longrightarrow> P b"
  shows "P s'"
  using assms
proof (induction xs arbitrary: s)
  case Nil
  then show ?case by simp
next
  case (Cons x xs)
  from Cons.prems(1) obtain a where a: "f x s = Inr a" and r: "forEach f xs a = Inr s'"
    by (auto split: sum.splits)
  from Cons.prems(2,3) a have "P a" by auto
  with Cons.IH [OF r] Cons.prems(3) show ?case by auto
qed

lemma forEach_total:
  assumes "\<And>x a. x \<in> set xs \<Longrightarrow> \<exists>b. f x a = Inr b"
  shows "\<exists>s'. forEach f xs s = Inr s'"
  using assms
proof (induction xs arbitrary: s)
  case Nil
  then show ?case by simp
next
  case (Cons x xs)
  from Cons.prems obtain a where a: "f x s = Inr a" by (meson list.set_intros(1))
  from Cons.IH [of a] Cons.prems obtain s' where "forEach f xs a = Inr s'" by auto
  with a show ?case by simp
qed

lemma forEach_reaches:
  assumes "forEach f xs s = Inr s'" and "x \<in> set xs"
    and "\<And>y a b. Q a \<Longrightarrow> f y a = Inr b \<Longrightarrow> Q b"
    and "\<And>a b. f x a = Inr b \<Longrightarrow> Q b"
  shows "Q s'"
  using assms(1,2)
proof (induction xs arbitrary: s)
  case Nil
  then show ?case by simp
next
  case (Cons y ys)
  from Cons.prems(1) obtain a where a: "f y s = Inr a" and r: "forEach f ys a = Inr s'"
    by (auto split: sum.splits)
  show ?case
  proof (cases "x = y")
    case True
    with a assms(4) have "Q a" by auto
    with r show ?thesis using assms(3) by (rule forEach_invariant)
  next
    case False
    with Cons.prems(2) have "x \<in> set ys" by simp
    with Cons.IH r show ?thesis by auto
  qed
qed

lemma distinct_set_add: "distinct xs \<Longrightarrow> distinct (set_add xs x)"
  by (simp add: set_add_def)

lemma set_set_add: "set (set_add xs x) = insert x (set xs)"
  by (auto simp: set_add_def)

lemma extract_color_wf: "well_formed a \<Longrightarrow> extract_color d a = Inr b \<Longrightarrow> well_formed b"
  by (auto simp: extract_color_def well_formed_def list_all_iff distinct_set_add set_set_add
      split: option.splits if_splits dest: match_color_token)

lemma extract_spacing_wf: "well_formed a \<Longrightarrow> extract_spacing d a = Inr b \<Longrightarrow> well_formed b"
  by (auto simp: extract_spacing_def well_formed_def list_all_iff distinct_set_add set_set_add
      split: option.splits if_splits dest: match_px_token)

lemma visit_decl_wf: "well_formed a \<Longrightarrow> visit_decl d a = Inr b \<Longrightarrow> well_formed b"
  by (auto simp: visit_decl_def split: if_splits sum.splits
      dest: extract_color_wf extract_spacing_wf)

lemma extract_breakpoint_wf: "well_formed a \<Longrightarrow> extract_breakpoint r a = Inr b \<Longrightarrow> well_formed b"
  by (auto simp: extract_breakpoint_def well_formed_def list_all_iff distinct_set_add set_set_add
      split: option.splits if_splits dest: match_px_token)

lemma visit_rule_wf:
  assumes "well_formed a" and "visit_rule r a = Inr b"
  shows "well_formed b"
proof -
  from assms(2) obtain c where
    c: "(case declarations r of
           Some ds \<Rightarrow> if node_type r = ''rule'' then forEach visit_decl ds a else Inr a
         | None \<Rightarrow> Inr a) = Inr c"
    and b: "extract_breakpoint r c = Inr b"
    by (auto simp: visit_rule_def split: sum.splits)
  have "well_formed c"
  proof (cases "declarations r")
    case None
    with c assms(1) show ?thesis by simp
  next
    case (Some ds)
    show ?thesis
    proof (cases "node_type r = ''rule''")
      case True
      with c Some have "forEach visit_decl ds a = Inr c" by simp
      then show ?thesis using assms(1) visit_decl_wf by (rule forEach_invariant)
    next
      case False
      with c Some assms(1) show ?thesis by simp
    qed
  qed
  with b show ?thesis by (rule extract_breakpoint_wf [rotated -1])
qed

lemma collect_wf: "collect t = Inr s \<Longrightarrow> well_formed s"
proof -
  assume "collect t = Inr s"
  then have "forEach visit_rule t empty_sets = Inr s" by (simp add: collect_def)
  moreover have "well_formed empty_sets" by (simp add: well_formed_def empty_sets_def)
  ultimately show ?thesis using visit_rule_wf by (rule forEach_invariant)
qed

lemma extractVariables_InrD:
  assumes "extractVariables t = Inr v"
  obtains s where "collect t = Inr s" and "colors v = colors_set s"
    and "spacing v = array_sort compare_px (spacing_set s)"
    and "breakpoints v = array_sort compare_px (breakpoints_set s)"
  using assms by (auto simp: extractVariables_def split: sum.splits)

lemma px_token_parses: "is_px_token x \<Longrightarrow> parseInt x \<noteq> None"
  by (simp add: parseInt_px_token)

lemma sorted_px_tokens:
  "\<forall>x \<in> set xs. is_px_token x \<Longrightarrow> array_sort compare_px xs = sort_key px_key xs"
  by (rule array_sort_sort_key) (simp add: px_token_parses)

lemma extractVariables_shape:
  assumes "extractVariables t = Inr v"
  shows "distinct (colors v)" "distinct (spacing v)" "distinct (breakpoints v)"
    "\<forall>c \<in> set (colors v). is_color_token c"
    "\<forall>x \<in> set (spacing v). is_px_token x"
    "\<forall>x \<in> set (breakpoints v). is_px_token x"
proof -
  from assms obtain s where s: "collect t = Inr s" and c: "colors v = colors_set s"
    and sp: "spacing v = array_sort compare_px (spacing_set s)"
    and bp: "breakpoints v = array_sort compare_px (breakpoints_set s)"
    by (rule extractVariables_InrD)
  from s have wf: "well_formed s" by (rule collect_wf)
  from wf have sp': "spacing v = sort_key px_key (spacing_set s)"
    unfolding sp by (intro sorted_px_tokens) (simp add: well_formed_def list_all_iff)
  from wf have bp': "breakpoints v = sort_key px_key (breakpoints_set s)"
    unfolding bp by (intro sorted_px_tokens) (simp add: well_formed_def list_all_iff)
  from wf show "distinct (colors v)" "distinct (spacing v)" "distinct (breakpoints v)"
    "\<forall>c \<in> set (colors v). is_color_token c"
    "\<forall>x \<in> set (spacing v). is_px_token x"
    "\<forall>x \<in> set (breakpoints v). is_px_token x"
    by (simp_all add: c sp' bp' well_formed_def list_all_iff)
qed

subsection \<open>The sections of the variables text\<close>

lemma foldl_append_concat: "foldl (\<lambda>acc x. acc @ g x) a xs = a @ concat (map g xs)"
  by (induction xs arbitrary: a) simp_all

lemma foldl_append_concat_pair:
  "foldl (\<lambda>acc (i, x). acc @ g i x) a xs = a @ concat (map (\<lambda>(i, x). g i x) xs)"
  by (induction xs arbitrary: a) auto

lemma generateVariablesFile_sections:
  "generateVariablesFile vars =
     ''// Color Variables\<newline>'' @
     concat (map (\<lambda>(name, v). assignment name v) (color_variables vars)) @
     ''\<newline>// Spacing Variables\<newline>'' @
     concat (map (\<lambda>(name, v). assignment name v) (spacing_variables vars)) @
     ''\<newline>// Breakpoint Variables\<newline>'' @
     concat (map (\<lambda>(name, v). assignment name v) (breakpoint_variables vars))"
  unfolding generateVariablesFile_def Let_def foldl_append_concat_pair foldl_append_concat
    color_variables_def spacing_variables_def breakpoint_variables_def
  by (simp add: comp_def case_prod_unfold)

subsection \<open>Counting the entries of equal integer\<close>



subsection \<open>Valid trees never raise\<close>

text \<open>
  Outside the valid trees a declaration can raise: \<^verbatim>\<open>decl.value.match\<close> throws where the
  value of a declaration with a matching property is undefined.
\<close>

lemma undefined_value_raises:
  "extractVariables [Node ''rule'' (Some [Decl ''declaration'' (Some ''color'') None]) None []]
     = Inl TypeError"
  by code_simp

lemma extract_color_total:
  "decl_value d \<noteq> None \<Longrightarrow> \<exists>b. extract_color d a = Inr b"
  by (auto simp: extract_color_def split: option.splits)

lemma extract_spacing_total:
  "decl_value d \<noteq> None \<Longrightarrow> \<exists>b. extract_spacing d a = Inr b"
  by (auto simp: extract_spacing_def split: option.splits)

lemma visit_decl_total:
  assumes "valid_decl d"
  shows "\<exists>b. visit_decl d a = Inr b"
proof (cases "decl_type d = ''declaration''")
  case True
  with assms have v: "decl_value d \<noteq> None" by (simp add: valid_decl_def)
  then obtain c where c: "extract_color d a = Inr c" using extract_color_total by blast
  from v obtain b where "extract_spacing d c = Inr b" using extract_spacing_total by blast
  with c True show ?thesis by (simp add: visit_decl_def)
next
  case False
  then show ?thesis by (simp add: visit_decl_def)
qed

lemma extract_breakpoint_total:
  "node_type r = ''media'' \<longrightarrow> media r \<noteq> None \<Longrightarrow> \<exists>b. extract_breakpoint r a = Inr b"
  by (auto simp: extract_breakpoint_def split: option.splits)

lemma visit_rule_total:
  assumes "valid_node r"
  shows "\<exists>b. visit_rule r a = Inr b"
proof -
  obtain t ds m rs where r: "r = Node t ds m rs" by (cases r)
  have "\<exists>c. (case declarations r of
           Some l \<Rightarrow> if node_type r = ''rule'' then forEach visit_decl l a else Inr a
         | None \<Rightarrow> Inr a) = Inr c"
  proof (cases "t = ''rule''")
    case True
    with assms r obtain l where l: "ds = Some l" and v: "list_all valid_decl l"
      by (auto split: option.splits)
    from v have "\<exists>c. forEach visit_decl l a = Inr c"
      by (intro forEach_total visit_decl_total) (simp add: list_all_iff)
    with True r l show ?thesis by simp
  next
    case False
    with r show ?thesis by (simp split: option.splits)
  qed
  then obtain c where c: "(case declarations r of
           Some l \<Rightarrow> if node_type r = ''rule'' then forEach visit_decl l a else Inr a
         | None \<Rightarrow> Inr a) = Inr c" ..
  from assms r have "node_type r = ''media'' \<longrightarrow> media r \<noteq> None" by auto
  then obtain b where "extract_breakpoint r c = Inr b" using extract_breakpoint_total by blast
  with c show ?thesis by (simp add: visit_rule_def)
qed

subsection \<open>The first integer-px token\<close>

lemma list_ex_upto: "list_ex P [0..<Suc n] \<longleftrightarrow> (\<exists>k\<le>n. P k)"
  unfolding list_ex_iff set_upt by (auto simp: less_Suc_eq_le)

lemma list_all_below: "list_all P [0..<k] \<longleftrightarrow> (\<forall>j<k. P j)"
  unfolding list_all_iff set_upt by auto

lemma px_token_at_alt: "px_token_at x k \<longleftrightarrow> (\<exists>n\<le>length x. is_px_token (take n (drop k x)))"
  unfolding px_token_at_def by (rule list_ex_upto)

lemma first_px_token_alt:
  "first_px_token tok x \<longleftrightarrow>
     is_px_token tok \<and>
     (\<exists>k\<le>length x. take (length tok) (drop k x) = tok \<and> (\<forall>j<k. \<not> px_token_at x j))"
  unfolding first_px_token_def list_ex_upto list_all_below ..

lemma match_first_leftmost:
  "match_first m s = Some r \<Longrightarrow>
   \<exists>k\<le>length s. m (drop k s) = Some r \<and> (\<forall>j<k. m (drop j s) = None)"
proof (induction s)
  case Nil
  then show ?case by simp
next
  case (Cons c cs)
  show ?case
  proof (cases "m (c # cs)")
    case None
    with Cons obtain k where k: "k \<le> length cs" "m (drop k cs) = Some r"
      "\<forall>j<k. m (drop j cs) = None" by auto
    have "\<forall>j<Suc k. m (drop j (c # cs)) = None"
    proof (intro allI impI)
      fix j assume "j < Suc k"
      then show "m (drop j (c # cs)) = None" using None k(3) by (cases j) auto
    qed
    with k(1,2) have "Suc k \<le> length (c # cs) \<and> m (drop (Suc k) (c # cs)) = Some r \<and>
        (\<forall>j<Suc k. m (drop j (c # cs)) = None)" by simp
    then show ?thesis by blast
  next
    case (Some a)
    with Cons.prems have "m (drop 0 (c # cs)) = Some r" by simp
    then show ?thesis by blast
  qed
qed

lemma match_first_at:
  "k \<le> length s \<Longrightarrow> m (drop k s) = Some r \<Longrightarrow> \<forall>j<k. m (drop j s) = None \<Longrightarrow>
   match_first m s = Some r"
proof (induction s arbitrary: k)
  case Nil
  then show ?case by simp
next
  case (Cons c cs)
  show ?case
  proof (cases k)
    case 0
    with Cons.prems show ?thesis by simp
  next
    case (Suc k')
    with Cons.prems have n: "m (c # cs) = None" by (metis drop0 zero_less_Suc)
    from Cons.prems Suc have "k' \<le> length cs" "m (drop k' cs) = Some r" by simp_all
    moreover have "\<forall>j<k'. m (drop j cs) = None"
    proof (intro allI impI)
      fix j assume "j < k'"
      then have "Suc j < k" using Suc by simp
      with Cons.prems(3) have "m (drop (Suc j) (c # cs)) = None" by blast
      then show "m (drop j cs) = None" by simp
    qed
    ultimately have "match_first m cs = Some r" by (rule Cons.IH)
    with n show ?thesis by simp
  qed
qed

lemma px_at_prefix: "px_at s = Some r \<Longrightarrow> \<exists>rest. s = r @ rest"
proof (induction s arbitrary: r)
  case Nil
  then show ?case by simp
next
  case (Cons c cs)
  from Cons.prems have d: "is_digit c" by (simp split: if_splits)
  show ?case
  proof (cases "px_at cs")
    case None
    with Cons.prems d have r: "r = c # ''px''" and p: "startsWith cs ''px''"
      by (simp_all split: if_splits)
    from p have "cs = ''px'' @ drop 2 cs"
      by (metis append_take_drop_id startsWith_def length_Cons list.size(3) numeral_2_eq_2)
    with r have "c # cs = r @ drop 2 cs" by simp
    then show ?thesis by blast
  next
    case (Some r')
    with Cons.prems d have r: "r = c # r'" by simp
    from Cons.IH [OF Some] obtain rest where "cs = r' @ rest" by blast
    with r show ?thesis by simp
  qed
qed

lemma px_at_complete: "is_px_token y \<Longrightarrow> px_at (y @ rest) = Some y"
proof (induction y)
  case Nil
  then show ?case by (simp add: is_px_token_def)
next
  case (Cons c y)
  from Cons.prems have d: "is_digit c" by (auto simp: is_px_token_def split: if_splits)
  from Cons.prems d have dr: "dropWhile is_digit y = ''px''" by (simp add: is_px_token_def)
  show ?case
  proof (cases "takeWhile is_digit y = []")
    case True
    with dr have y: "y = ''px''" by (metis append_Nil takeWhile_dropWhile_id)
    show ?thesis using d by (simp add: y startsWith_def)
  next
    case False
    with dr have "is_px_token y" by (simp add: is_px_token_def)
    then have "px_at (y @ rest) = Some y" by (rule Cons.IH)
    with d show ?thesis by simp
  qed
qed

lemma px_token_at_iff: "px_token_at x k \<longleftrightarrow> px_at (drop k x) \<noteq> None"
proof
  assume "px_token_at x k"
  then obtain n where "is_px_token (take n (drop k x))"
    unfolding px_token_at_alt by blast
  then have "px_at (take n (drop k x) @ drop n (drop k x)) = Some (take n (drop k x))"
    by (rule px_at_complete)
  then have "px_at (drop k x) = Some (take n (drop k x))"
    by (simp only: append_take_drop_id)
  then show "px_at (drop k x) \<noteq> None" by simp
next
  assume "px_at (drop k x) \<noteq> None"
  then obtain r where r: "px_at (drop k x) = Some r" by blast
  then obtain rest where e: "drop k x = r @ rest" using px_at_prefix by blast
  from r have t: "is_px_token r" by (rule px_at_token)
  from e have "take (length r) (drop k x) = r" by simp
  moreover from e have "length r \<le> length x"
    by (metis length_append length_drop le_add1 diff_le_self le_trans)
  ultimately show "px_token_at x k" using t
    unfolding px_token_at_alt by metis
qed

lemma match_px_first: "match_px x = Some tok \<longleftrightarrow> first_px_token tok x"
proof
  assume "match_px x = Some tok"
  then obtain k where k: "k \<le> length x" "px_at (drop k x) = Some tok"
    "\<forall>j<k. px_at (drop j x) = None"
    unfolding match_px_def using match_first_leftmost by blast
  from k(2) have t: "is_px_token tok" by (rule px_at_token)
  from k(2) obtain rest where "drop k x = tok @ rest" using px_at_prefix by blast
  then have "take (length tok) (drop k x) = tok" by simp
  moreover from k(3) have "\<forall>j<k. \<not> px_token_at x j"
    by (simp add: px_token_at_iff)
  ultimately show "first_px_token tok x" using t k(1)
    unfolding first_px_token_alt by blast
next
  assume "first_px_token tok x"
  then obtain k where t: "is_px_token tok" and k: "k \<le> length x"
    "take (length tok) (drop k x) = tok" "\<forall>j<k. \<not> px_token_at x j"
    unfolding first_px_token_alt by blast
  from k(2) have "drop k x = tok @ drop (length tok) (drop k x)"
    by (metis append_take_drop_id)
  with t have "px_at (drop k x) = Some tok" using px_at_complete by metis
  moreover from k(3) have "\<forall>j<k. px_at (drop j x) = None" by (simp add: px_token_at_iff)
  ultimately show "match_px x = Some tok"
    unfolding match_px_def using k(1) by (intro match_first_at)
qed

subsection \<open>What the traversal adds and what it reads\<close>

lemma set_insert_sorted: "set (insert_sorted cmp x ys) = insert x (set ys)"
  by (induction ys) auto

lemma set_array_sort: "set (array_sort cmp xs) = set xs"
  by (induction xs) (simp_all add: array_sort_def set_insert_sorted)

lemma extract_color_spacing: "extract_color d a = Inr b \<Longrightarrow> spacing_set b = spacing_set a"
  by (auto simp: extract_color_def split: option.splits if_splits)

lemma extract_spacing_grows:
  "extract_spacing d a = Inr b \<Longrightarrow> set (spacing_set a) \<subseteq> set (spacing_set b)"
  by (auto simp: extract_spacing_def set_set_add split: option.splits if_splits)

lemma visit_decl_grows:
  "visit_decl d a = Inr b \<Longrightarrow> tok \<in> set (spacing_set a) \<Longrightarrow> tok \<in> set (spacing_set b)"
  by (auto simp: visit_decl_def split: if_splits sum.splits
      dest!: extract_color_spacing extract_spacing_grows)

lemma visit_decl_adds:
  assumes "visit_decl d a = Inr b" and "decl_type d = ''declaration''"
    and "property d = Some p" and "str_includes p ''margin'' \<or> str_includes p ''padding''"
    and "decl_value d = Some x" and "match_px x = Some tok"
  shows "tok \<in> set (spacing_set b)"
proof -
  from assms(4) have p: "p \<noteq> []" by (cases p) (auto simp: startsWith_def)
  from assms(1,2) obtain c where "extract_spacing d c = Inr b"
    by (auto simp: visit_decl_def split: sum.splits)
  with assms(3-6) p show ?thesis
    by (auto simp: extract_spacing_def set_set_add)
qed

lemma extract_breakpoint_spacing:
  "extract_breakpoint r a = Inr b \<Longrightarrow> spacing_set b = spacing_set a"
  by (auto simp: extract_breakpoint_def split: option.splits if_splits)

lemma visit_rule_InrD:
  assumes "visit_rule r a = Inr b"
  obtains c where
    "(case declarations r of
        Some ds \<Rightarrow> if node_type r = ''rule'' then forEach visit_decl ds a else Inr a
      | None \<Rightarrow> Inr a) = Inr c"
    and "extract_breakpoint r c = Inr b"
  using assms by (auto simp: visit_rule_def split: sum.splits)

lemma visit_rule_grows:
  assumes "tok \<in> set (spacing_set a)" and "visit_rule r a = Inr b"
  shows "tok \<in> set (spacing_set b)"
proof -
  from assms(2) obtain c where
    c: "(case declarations r of
           Some ds \<Rightarrow> if node_type r = ''rule'' then forEach visit_decl ds a else Inr a
         | None \<Rightarrow> Inr a) = Inr c"
    and b: "extract_breakpoint r c = Inr b"
    by (rule visit_rule_InrD)
  have "tok \<in> set (spacing_set c)"
  proof (cases "declarations r")
    case None
    with c assms(1) show ?thesis by simp
  next
    case (Some ds)
    show ?thesis
    proof (cases "node_type r = ''rule''")
      case True
      with c Some have "forEach visit_decl ds a = Inr c" by simp
      then show ?thesis using assms(1)
        by (rule forEach_invariant) (rule visit_decl_grows)
    next
      case False
      with c Some assms(1) show ?thesis by simp
    qed
  qed
  with b show ?thesis by (simp add: extract_breakpoint_spacing)
qed

lemma visit_rule_adds:
  assumes "visit_rule r a = Inr b" and "node_type r = ''rule''" and "declarations r = Some ds"
    and "d \<in> set ds" and "decl_type d = ''declaration''"
    and "property d = Some p" and "str_includes p ''margin'' \<or> str_includes p ''padding''"
    and "decl_value d = Some x" and "match_px x = Some tok"
  shows "tok \<in> set (spacing_set b)"
proof -
  from assms(1) obtain c where
    c: "(case declarations r of
           Some ds \<Rightarrow> if node_type r = ''rule'' then forEach visit_decl ds a else Inr a
         | None \<Rightarrow> Inr a) = Inr c"
    and b: "extract_breakpoint r c = Inr b"
    by (rule visit_rule_InrD)
  from c assms(2,3) have f: "forEach visit_decl ds a = Inr c" by simp
  have "tok \<in> set (spacing_set c)"
    using f assms(4)
  proof (rule forEach_reaches)
    fix y a' b' assume "tok \<in> set (spacing_set a')" "visit_decl y a' = Inr b'"
    then show "tok \<in> set (spacing_set b')" by (rule visit_decl_grows [rotated])
  next
    fix a' b' assume "visit_decl d a' = Inr b'"
    then show "tok \<in> set (spacing_set b')" using assms(5-9) by (rule visit_decl_adds)
  qed
  with b show ?thesis by (simp add: extract_breakpoint_spacing)
qed

lemma visit_rule_inspected:
  assumes "inspected r = inspected r'"
  shows "visit_rule r = visit_rule r'"
proof -
  obtain t ds m rs where r: "r = Node t ds m rs" by (cases r)
  obtain t' ds' m' rs' where r': "r' = Node t' ds' m' rs'" by (cases r')
  from assms r r' have t: "t' = t" and ds: "t = ''rule'' \<Longrightarrow> ds' = ds"
    and m: "t = ''media'' \<Longrightarrow> m' = m" by (auto split: if_splits)
  show ?thesis
  proof (rule ext)
    fix s
    have B: "extract_breakpoint r = extract_breakpoint r'"
      by (rule ext) (use m in \<open>auto simp: extract_breakpoint_def r r' t\<close>)
    have A: "(case declarations r of
           Some l \<Rightarrow> if node_type r = ''rule'' then forEach visit_decl l s else Inr s
         | None \<Rightarrow> Inr s) =
        (case declarations r' of
           Some l \<Rightarrow> if node_type r' = ''rule'' then forEach visit_decl l s else Inr s
         | None \<Rightarrow> Inr s)"
      using ds by (auto simp: r r' t split: option.splits)
    show "visit_rule r s = visit_rule r' s" by (simp only: visit_rule_def A B)
  qed
qed

lemma forEach_cong_view:
  assumes "map g xs = map g ys" and "\<And>x y. g x = g y \<Longrightarrow> f x = f y"
  shows "forEach f xs s = forEach f ys s"
  using assms(1)
proof (induction xs arbitrary: ys s)
  case Nil
  then show ?case by simp
next
  case (Cons x xs)
  then obtain y ys' where ys: "ys = y # ys'" and g: "g x = g y" and r: "map g xs = map g ys'"
    by (cases ys) auto
  from g have "f x = f y" by (rule assms(2))
  with Cons.IH [OF r] ys show ?case by (simp split: sum.splits)
qed

lemma collect_inspected:
  assumes "map inspected t = map inspected t'"
  shows "collect t = collect t'"
  unfolding collect_def using assms visit_rule_inspected by (rule forEach_cong_view)

lemma inspected_without_nested: "inspected (without_nested r) = inspected r"
  by (cases r) simp

subsection \<open>The sorted sequences\<close>





subsection \<open>Decimal numerals\<close>

lemma below_ten: "d < 10 \<Longrightarrow> d = 0 \<or> d = 1 \<or> d = 2 \<or> d = 3 \<or> d = 4 \<or> d = 5 \<or> d = 6 \<or> d = 7 \<or> d = 8 \<or> d = (9::nat)"
  by arith

lemma digit_value_digit_char: "d < 10 \<Longrightarrow> digit_value 10 (digit_char d) = Some d"
  by (drule below_ten) (auto simp: digit_char_def digit_value_def)

lemma is_digit_digit_char: "d < 10 \<Longrightarrow> is_digit (digit_char d)"
  by (drule below_ten) (auto simp: digit_char_def is_digit_def)

lemma radix_value_snoc:
  "radix_value r (z @ [c]) =
     radix_value r z * r + (case digit_value r c of Some k \<Rightarrow> k | None \<Rightarrow> 0)"
  by (simp add: radix_value_def)

lemma radix_value_string_of_nat: "radix_value 10 (string_of_nat n) = n"
proof (induction n rule: string_of_nat.induct)
  case (1 n)
  show ?case
  proof (cases "n < 10")
    case True
    then have "string_of_nat n = [] @ [digit_char n]" by (subst string_of_nat.simps) simp
    then have "radix_value 10 (string_of_nat n) =
        radix_value 10 [] * 10 + (case digit_value 10 (digit_char n) of Some k \<Rightarrow> k | None \<Rightarrow> 0)"
      by (simp only: radix_value_snoc)
    with True show ?thesis by (simp add: digit_value_digit_char radix_value_def)
  next
    case False
    then have s: "string_of_nat n = string_of_nat (n div 10) @ [digit_char (n mod 10)]"
      by (subst string_of_nat.simps) simp
    have "radix_value 10 (string_of_nat n) =
        radix_value 10 (string_of_nat (n div 10)) * 10 +
          (case digit_value 10 (digit_char (n mod 10)) of Some k \<Rightarrow> k | None \<Rightarrow> 0)"
      unfolding s by (rule radix_value_snoc)
    also have "\<dots> = (n div 10) * 10 + n mod 10"
      using 1 False by (simp add: digit_value_digit_char)
    finally show ?thesis by simp
  qed
qed

lemma digits_string_of_nat: "list_all is_digit (string_of_nat n) \<and> string_of_nat n \<noteq> []"
proof (induction n rule: string_of_nat.induct)
  case (1 n)
  show ?case
  proof (cases "n < 10")
    case True
    then have "string_of_nat n = [digit_char n]" by (subst string_of_nat.simps) simp
    with True show ?thesis by (simp add: is_digit_digit_char)
  next
    case False
    then have s: "string_of_nat n = string_of_nat (n div 10) @ [digit_char (n mod 10)]"
      by (subst string_of_nat.simps) simp
    from 1 False have "list_all is_digit (string_of_nat (n div 10))" by simp
    then show ?thesis unfolding s by (simp add: is_digit_digit_char)
  qed
qed

lemma radix_value_zeros: "radix_value 10 (replicate z (CHR ''0'') @ ds) = radix_value 10 ds"
proof -
  have "\<And>f. foldl (\<lambda>a c. a * 10 + (case digit_value 10 c of Some k \<Rightarrow> k | None \<Rightarrow> 0)) (0::nat)
      (replicate z (CHR ''0'')) = 0"
    by (induction z) (simp_all add: digit_value_def)
  then show ?thesis by (simp add: radix_value_def)
qed

lemma px_token_digits:
  "takeWhile is_digit (px_token z n) = replicate z (CHR ''0'') @ string_of_nat n \<and>
   dropWhile is_digit (px_token z n) = ''px''"
proof -
  let ?ds = "replicate z (CHR ''0'') @ string_of_nat n"
  have z: "is_digit (CHR ''0'')" by (simp add: is_digit_def)
  have "\<forall>c \<in> set (string_of_nat n). is_digit c"
    using digits_string_of_nat [of n] by (simp add: list_all_iff)
  with z have d: "\<forall>c \<in> set ?ds. is_digit c" by auto
  have p: "px_token z n = ?ds @ ''px''" by (simp add: px_token_def)
  from d have "takeWhile is_digit (?ds @ ''px'') = ?ds @ takeWhile is_digit ''px''"
    by (intro takeWhile_append2) blast
  moreover from d have "dropWhile is_digit (?ds @ ''px'') = dropWhile is_digit ''px''"
    by (intro dropWhile_append2) blast
  ultimately show ?thesis unfolding p by simp
qed

lemma px_token_token: "is_px_token (px_token z n)"
  using digits_string_of_nat [of n] by (simp add: is_px_token_def px_token_digits)

lemma px_magnitude_px_token: "px_magnitude (px_token z n) = n"
  by (simp add: px_magnitude_def px_token_digits radix_value_zeros radix_value_string_of_nat)

lemma spacing_bucket_spec: "spacing_bucket (Some (int n)) = spec_spacing_bucket n"
  by (simp add: spacing_bucket_def spec_spacing_bucket_def num_eq_def num_le_def)

lemma breakpoint_bucket_spec: "breakpoint_bucket (Some (int n)) = spec_breakpoint_bucket n"
  by (simp add: breakpoint_bucket_def spec_breakpoint_bucket_def num_le_def)

subsection \<open>The lines of the variables text\<close>

lemma split_lines_line:
  "CHR 0x0A \<notin> set l \<Longrightarrow> split_lines (l @ CHR 0x0A # rest) = l # split_lines rest"
  by (induction l) auto

lemma split_lines_assignments:
  assumes "\<forall>nv \<in> set vs. CHR 0x0A \<notin> set (variable_line nv)"
  shows "split_lines (concat (map (\<lambda>nv. variable_line nv @ [CHR 0x0A]) vs) @ rest) =
           map variable_line vs @ split_lines rest"
  using assms
proof (induction vs)
  case Nil
  then show ?case by simp
next
  case (Cons nv vs)
  then have n: "CHR 0x0A \<notin> set (variable_line nv)" by simp
  have "split_lines (concat (map (\<lambda>nv. variable_line nv @ [CHR 0x0A]) (nv # vs)) @ rest) =
      split_lines (variable_line nv @ CHR 0x0A #
        (concat (map (\<lambda>nv. variable_line nv @ [CHR 0x0A]) vs) @ rest))"
    by simp
  also have "\<dots> = variable_line nv #
      split_lines (concat (map (\<lambda>nv. variable_line nv @ [CHR 0x0A]) vs) @ rest)"
    using n by (rule split_lines_line)
  also have "\<dots> = variable_line nv # map variable_line vs @ split_lines rest"
    using Cons by simp
  finally show ?case by simp
qed

lemma assignment_variable_line: "assignment name x = variable_line (name, x) @ [CHR 0x0A]"
  by (simp add: assignment_def variable_line_def)

lemma not_digit_newline: "\<not> is_digit (CHR 0x0A)"
  by (simp add: is_digit_def)

lemma string_of_nat_no_newline: "CHR 0x0A \<notin> set (string_of_nat n)"
  using digits_string_of_nat [of n] not_digit_newline by (auto simp: list_all_iff)

lemma px_token_no_newline:
  assumes "is_px_token x"
  shows "CHR 0x0A \<notin> set x"
proof
  assume a: "CHR 0x0A \<in> set x"
  have "x = takeWhile is_digit x @ dropWhile is_digit x" by simp
  with assms have x: "x = takeWhile is_digit x @ ''px''" by (simp add: is_px_token_def)
  from a have "CHR 0x0A \<in> set (takeWhile is_digit x @ ''px'')" by (subst x [symmetric])
  then have "CHR 0x0A \<in> set (takeWhile is_digit x)" by simp
  then have "is_digit (CHR 0x0A)" by (rule set_takeWhileD [THEN conjunct2])
  with not_digit_newline show False ..
qed

lemma color_name_no_newline: "CHR 0x0A \<notin> set (color_name c i)"
  using string_of_nat_no_newline [of "i + 1"] by (simp add: color_name_def)

lemma spacing_name_no_newline: "CHR 0x0A \<notin> set (spacing_name sp x i)"
  using string_of_nat_no_newline [of i]
  by (simp add: spacing_name_def spacing_bucket_def Let_def)

lemma breakpoint_name_no_newline: "CHR 0x0A \<notin> set (breakpoint_name x)"
  by (simp add: breakpoint_name_def breakpoint_bucket_def)

lemma variable_line_no_newline:
  "CHR 0x0A \<notin> set name \<Longrightarrow> CHR 0x0A \<notin> set x \<Longrightarrow> CHR 0x0A \<notin> set (variable_line (name, x))"
  by (simp add: variable_line_def)

lemma str_includes_prefix: "str_includes (b @ c) b"
proof (cases "b @ c")
  case Nil
  then show ?thesis by simp
next
  case (Cons d ds)
  have "startsWith (b @ c) b" by (simp add: startsWith_def)
  then show ?thesis unfolding Cons by simp
qed

lemma str_includes_middle: "str_includes (a @ b @ c) b"
  by (induction a) (simp_all add: str_includes_prefix)

lemma variable_line_shape: "is_assignment_line (variable_line nv)"
proof -
  have "butlast (drop 1 (variable_line nv)) = fst nv @ '': '' @ snd nv"
    by (simp add: variable_line_def butlast_append)
  then have "str_includes (butlast (drop 1 (variable_line nv))) '': ''"
    by (simp only: str_includes_middle)
  then show ?thesis
    by (simp add: is_assignment_line_def) (simp add: variable_line_def startsWith_def)
qed

lemma variables_text_lines:
  assumes c: "\<forall>nv \<in> set (color_variables v). CHR 0x0A \<notin> set (variable_line nv)"
    and s: "\<forall>nv \<in> set (spacing_variables v). CHR 0x0A \<notin> set (variable_line nv)"
    and b: "\<forall>nv \<in> set (breakpoint_variables v). CHR 0x0A \<notin> set (variable_line nv)"
  shows "split_lines (generateVariablesFile v) =
           ''// Color Variables'' # map variable_line (color_variables v) @
           [[], ''// Spacing Variables''] @ map variable_line (spacing_variables v) @
           [[], ''// Breakpoint Variables''] @ map variable_line (breakpoint_variables v) @ [[]]"
proof -
  let ?L = "\<lambda>vs. concat (map (\<lambda>nv. variable_line nv @ [CHR 0x0A]) vs)"
  have a: "(\<lambda>(name, x). assignment name x) = (\<lambda>nv. variable_line nv @ [CHR 0x0A])"
    by (auto simp: fun_eq_iff assignment_variable_line)
  have g: "generateVariablesFile v =
      ''// Color Variables'' @ CHR 0x0A # (?L (color_variables v) @
        ([] @ CHR 0x0A # (''// Spacing Variables'' @ CHR 0x0A # (?L (spacing_variables v) @
          ([] @ CHR 0x0A # (''// Breakpoint Variables'' @ CHR 0x0A #
             (?L (breakpoint_variables v) @ [])))))))"
    unfolding generateVariablesFile_sections a by simp
  have h1: "CHR 0x0A \<notin> set ''// Color Variables''" by simp
  have h2: "CHR 0x0A \<notin> set ''// Spacing Variables''" by simp
  have h3: "CHR 0x0A \<notin> set ''// Breakpoint Variables''" by simp
  have e: "CHR 0x0A \<notin> set ([] :: string)" by simp
  have "split_lines (?L (breakpoint_variables v) @ []) =
      map variable_line (breakpoint_variables v) @ split_lines []"
    using b by (rule split_lines_assignments)
  then have 3: "split_lines (?L (breakpoint_variables v) @ []) =
      map variable_line (breakpoint_variables v) @ [[]]"
    by simp
  have 2: "split_lines (?L (spacing_variables v) @ rest) =
      map variable_line (spacing_variables v) @ split_lines rest" for rest
    using s by (rule split_lines_assignments)
  have 1: "split_lines (?L (color_variables v) @ rest) =
      map variable_line (color_variables v) @ split_lines rest" for rest
    using c by (rule split_lines_assignments)
  show ?thesis
    unfolding g split_lines_line [OF h1] 1 split_lines_line [OF e] split_lines_line [OF h2] 2
      split_lines_line [OF h3] 3
    by simp
qed

section \<open>The claims\<close>

text \<open>
  C1 (as amended). For every stylesheet on which extraction returns, the variables text is
  the three headers, each followed by one assignment per entry of its sequence, in the
  order of the sequence; the values assigned in a section are exactly the entries of the
  sequence, and no entry occurs twice. So every extracted value is assigned exactly once
  in its section. (Names need not differ within a category.)
\<close>

theorem rendered_once:
  assumes "extractVariables t = Inr v"
  shows "generateVariablesFile v =
           ''// Color Variables\<newline>'' @
           concat (map (\<lambda>(name, x). assignment name x) (color_variables v)) @
           ''\<newline>// Spacing Variables\<newline>'' @
           concat (map (\<lambda>(name, x). assignment name x) (spacing_variables v)) @
           ''\<newline>// Breakpoint Variables\<newline>'' @
           concat (map (\<lambda>(name, x). assignment name x) (breakpoint_variables v))
         \<and> map snd (color_variables v) = colors v \<and> distinct (colors v)
         \<and> map snd (spacing_variables v) = spacing v \<and> distinct (spacing v)
         \<and> map snd (breakpoint_variables v) = breakpoints v \<and> distinct (breakpoints v)"
proof -
  have "map snd (color_variables v) = colors v"
    by (simp add: color_variables_def comp_def case_prod_unfold)
  moreover have "map snd (spacing_variables v) = spacing v"
    by (simp add: spacing_variables_def comp_def case_prod_unfold)
  moreover have "map snd (breakpoint_variables v) = breakpoints v"
    by (simp add: breakpoint_variables_def comp_def)
  ultimately show ?thesis
    using extractVariables_shape(1-3) [OF assms] generateVariablesFile_sections [of v]
    by blast
qed

theorem rendered_once_witness:
  "extractVariables two_breakpoints =
     Inr \<lparr>colors = [], spacing = [], breakpoints = [''320px'', ''480px'']\<rparr>
   \<and> generateVariablesFile \<lparr>colors = [], spacing = [], breakpoints = [''320px'', ''480px'']\<rparr> =
      ''// Color Variables\<newline>\<newline>// Spacing Variables\<newline>\<newline>// Breakpoint Variables\<newline>$breakpoint-mobile: 320px;\<newline>$breakpoint-mobile: 480px;\<newline>''"
proof -
  have e: "extractVariables two_breakpoints =
      Inr \<lparr>colors = [], spacing = [], breakpoints = [''320px'', ''480px'']\<rparr>"
    by code_simp
  from rendered_once [OF e] show ?thesis using e
    by (simp add: color_variables_def spacing_variables_def breakpoint_variables_def
        assignment_def breakpoint_name_def breakpoint_bucket_def parseInt_def is_space_def
        startsWith_def digit_value_def radix_value_def num_le_def)
qed

text \<open>
  C1 as stated fails: two media conditions below the first threshold give two breakpoint
  variables of the same name.
\<close>

theorem names_unique_counterexample:
  "extractVariables two_breakpoints =
     Inr \<lparr>colors = [], spacing = [], breakpoints = [''320px'', ''480px'']\<rparr>
   \<and> map fst (breakpoint_variables \<lparr>colors = [], spacing = [], breakpoints = [''320px'', ''480px'']\<rparr>)
       = [''breakpoint-mobile'', ''breakpoint-mobile'']
   \<and> \<not> distinct (map fst
         (breakpoint_variables \<lparr>colors = [], spacing = [], breakpoints = [''320px'', ''480px'']\<rparr>))"
  by code_simp




text \<open>
  C3. On every structurally valid parse tree extraction returns a result, never an error;
  and a declaration whose value is present but matches neither pattern (the empty value
  included) leaves the three sets as they are, whatever its property.
\<close>

theorem extraction_never_raises:
  assumes "valid_stylesheet t"
  shows "(\<exists>v. extractVariables t = Inr v) \<and>
         (decl_value d = Some x \<and> match_color x = None \<and> match_px x = None
            \<longrightarrow> visit_decl d s = Inr s)"
proof
  from assms have "\<exists>s. forEach visit_rule t empty_sets = Inr s"
    by (intro forEach_total visit_rule_total) (simp add: valid_stylesheet_def list_all_iff)
  then show "\<exists>v. extractVariables t = Inr v"
    by (auto simp: extractVariables_def collect_def)
next
  show "decl_value d = Some x \<and> match_color x = None \<and> match_px x = None
            \<longrightarrow> visit_decl d s = Inr s"
    by (auto simp: visit_decl_def extract_color_def extract_spacing_def split: option.splits)
qed

theorem extraction_never_raises_witness:
  "valid_stylesheet unmatched \<and>
   extractVariables unmatched = Inr \<lparr>colors = [], spacing = [''4px''], breakpoints = []\<rparr> \<and>
   visit_decl (Decl ''declaration'' (Some ''color'') (Some '''')) empty_sets = Inr empty_sets"
proof -
  have v: "valid_stylesheet unmatched" by code_simp
  have e: "extractVariables unmatched = Inr \<lparr>colors = [], spacing = [''4px''], breakpoints = []\<rparr>"
    by code_simp
  have m: "decl_value (Decl ''declaration'' (Some ''color'') (Some '''')) = Some '''' \<and>
      match_color '''' = None \<and> match_px '''' = None"
    by code_simp
  from extraction_never_raises [OF v, of "Decl ''declaration'' (Some ''color'') (Some '''')" "''''" empty_sets] m
  have "visit_decl (Decl ''declaration'' (Some ''color'') (Some '''')) empty_sets = Inr empty_sets"
    by blast
  with v e show ?thesis by blast
qed

text \<open>
  C4 (as amended). For every declaration of a top-level rule of type \<^verbatim>\<open>rule\<close> whose
  property name contains \<^verbatim>\<open>margin\<close> or \<^verbatim>\<open>padding\<close>, the first integer-px token of its value is
  in the spacing sequence. The nodes nested inside a node are not read: removing them
  leaves the result as it is.
\<close>

theorem margin_padding_collected:
  assumes "extractVariables t = Inr v" and "r \<in> set t"
    and "node_type r = ''rule''" and "declarations r = Some ds"
    and "d \<in> set ds" and "decl_type d = ''declaration''"
    and "property d = Some p" and "str_includes p ''margin'' \<or> str_includes p ''padding''"
    and "decl_value d = Some x" and "first_px_token tok x"
  shows "tok \<in> set (spacing v) \<and> extractVariables (map without_nested t) = extractVariables t"
proof
  from assms(10) have m: "match_px x = Some tok" by (simp add: match_px_first)
  from assms(1) obtain s where s: "collect t = Inr s"
    and sp: "spacing v = array_sort compare_px (spacing_set s)"
    by (rule extractVariables_InrD)
  from s have f: "forEach visit_rule t empty_sets = Inr s" by (simp add: collect_def)
  have "tok \<in> set (spacing_set s)"
    using f assms(2)
  proof (rule forEach_reaches)
    fix y a b assume "tok \<in> set (spacing_set a)" "visit_rule y a = Inr b"
    then show "tok \<in> set (spacing_set b)" by (rule visit_rule_grows)
  next
    fix a b assume "visit_rule r a = Inr b"
    then show "tok \<in> set (spacing_set b)" using assms(3-9) m by (rule visit_rule_adds)
  qed
  then show "tok \<in> set (spacing v)" by (simp add: sp set_array_sort)
next
  have "map inspected (map without_nested t) = map inspected t"
    by (simp add: comp_def inspected_without_nested)
  then have "collect (map without_nested t) = collect t" by (rule collect_inspected)
  then show "extractVariables (map without_nested t) = extractVariables t"
    by (simp add: extractVariables_def)
qed

theorem margin_padding_collected_witness:
  "extractVariables nested_margin =
     Inr \<lparr>colors = [], spacing = [''12px''], breakpoints = [''600px'']\<rparr> \<and>
   first_px_token ''12px'' ''0 auto 12px 4px'' \<and>
   ''12px'' \<in> set (spacing \<lparr>colors = [], spacing = [''12px''], breakpoints = [''600px'']\<rparr>) \<and>
   extractVariables (map without_nested nested_margin) = extractVariables nested_margin"
proof -
  let ?r = "Node ''rule'' (Some [Decl ''declaration'' (Some ''margin-top'') (Some ''0 auto 12px 4px'')]) None []"
  let ?d = "Decl ''declaration'' (Some ''margin-top'') (Some ''0 auto 12px 4px'')"
  have e: "extractVariables nested_margin =
      Inr \<lparr>colors = [], spacing = [''12px''], breakpoints = [''600px'']\<rparr>"
    by code_simp
  have r: "?r \<in> set nested_margin" by (simp add: nested_margin_def)
  have i: "str_includes ''margin-top'' ''margin'' \<or> str_includes ''margin-top'' ''padding''"
    by code_simp
  have f: "first_px_token ''12px'' ''0 auto 12px 4px''" by code_simp
  from margin_padding_collected [OF e r _ _ _ _ _ i _ f, of "[?d]" ?d]
  have "''12px'' \<in> set (spacing \<lparr>colors = [], spacing = [''12px''], breakpoints = [''600px'']\<rparr>) \<and>
     extractVariables (map without_nested nested_margin) = extractVariables nested_margin"
    by simp
  with e f show ?thesis by blast
qed

text \<open>
  C4 as stated fails: the margin declaration of a rule nested inside a media rule adds
  nothing to the spacing sequence.
\<close>

theorem nested_declarations_counterexample:
  "extractVariables
     [Node ''media'' None (Some ''(max-width: 600px)'')
        [Node ''rule'' (Some [Decl ''declaration'' (Some ''margin'') (Some ''8px'')]) None []]]
   = Inr \<lparr>colors = [], spacing = [], breakpoints = [''600px'']\<rparr>
   \<and> first_px_token ''8px'' ''8px''
   \<and> ''8px'' \<notin> set (spacing \<lparr>colors = [], spacing = [], breakpoints = [''600px'']\<rparr>)"
  by code_simp




text \<open>
  C6. The spacing bucket of a px token is the one that the thresholds of the specification
  give for the integer of the token, and every non-negative integer is the magnitude of px
  tokens (with any number of leading zeros). The stylesheet of the specification gives the
  spacing sequence \<^verbatim>\<open>8px\<close>, \<^verbatim>\<open>16px\<close>, named \<^verbatim>\<open>spacing-sm\<close> and \<^verbatim>\<open>spacing-md\<close> without suffix.
\<close>

theorem spacing_thresholds:
  assumes "is_px_token tok"
  shows "spacing_bucket (parseInt tok) = spec_spacing_bucket (px_magnitude tok) \<and>
         is_px_token (px_token z n) \<and> px_magnitude (px_token z n) = n \<and>
         extractVariables spec_spacing =
           Inr \<lparr>colors = [], spacing = [''8px'', ''16px''], breakpoints = []\<rparr> \<and>
         spacing_variables \<lparr>colors = [], spacing = [''8px'', ''16px''], breakpoints = []\<rparr> =
           [(''spacing-sm'', ''8px''), (''spacing-md'', ''16px'')] \<and>
         variables_text spec_spacing =
           Inr ''// Color Variables\<newline>\<newline>// Spacing Variables\<newline>$spacing-sm: 8px;\<newline>$spacing-md: 16px;\<newline>\<newline>// Breakpoint Variables\<newline>''"
proof -
  from assms have "spacing_bucket (parseInt tok) = spec_spacing_bucket (px_magnitude tok)"
    by (simp add: parseInt_px_token spacing_bucket_spec)
  moreover have "extractVariables spec_spacing =
      Inr \<lparr>colors = [], spacing = [''8px'', ''16px''], breakpoints = []\<rparr>"
    by code_simp
  moreover have
    "spacing_variables \<lparr>colors = [], spacing = [''8px'', ''16px''], breakpoints = []\<rparr> =
       [(''spacing-sm'', ''8px''), (''spacing-md'', ''16px'')]"
    by code_simp
  moreover have "variables_text spec_spacing =
      Inr ''// Color Variables\<newline>\<newline>// Spacing Variables\<newline>$spacing-sm: 8px;\<newline>$spacing-md: 16px;\<newline>\<newline>// Breakpoint Variables\<newline>''"
    by code_simp
  ultimately show ?thesis using px_token_token px_magnitude_px_token by blast
qed

theorem spacing_thresholds_witness:
  "is_px_token ''024px'' \<and> spacing_bucket (parseInt ''024px'') = ''lg'' \<and>
   px_token 1 24 = ''024px''"
proof -
  have t: "is_px_token ''024px''" by code_simp
  have m: "spec_spacing_bucket (px_magnitude ''024px'') = ''lg''" by code_simp
  have p: "px_token 1 24 = ''024px''" by code_simp
  from spacing_thresholds [OF t, of 1 24] m p t show ?thesis by simp
qed

text \<open>
  C7. The name of a breakpoint is \<^verbatim>\<open>breakpoint-\<close> and the bucket that the thresholds of the
  specification give for the integer of the token; it depends on nothing else, so there is
  no suffix. The media condition \<^verbatim>\<open>(max-width: 600px)\<close> gives the breakpoint \<^verbatim>\<open>600px\<close>,
  named \<^verbatim>\<open>breakpoint-tablet\<close>.
\<close>

theorem breakpoint_thresholds:
  assumes "is_px_token tok"
  shows "breakpoint_name tok = ''breakpoint-'' @ spec_breakpoint_bucket (px_magnitude tok) \<and>
         map fst (breakpoint_variables v) = map breakpoint_name (breakpoints v) \<and>
         extractVariables spec_media =
           Inr \<lparr>colors = [], spacing = [], breakpoints = [''600px'']\<rparr> \<and>
         variables_text spec_media =
           Inr ''// Color Variables\<newline>\<newline>// Spacing Variables\<newline>\<newline>// Breakpoint Variables\<newline>$breakpoint-tablet: 600px;\<newline>''"
proof -
  from assms have
    "breakpoint_name tok = ''breakpoint-'' @ spec_breakpoint_bucket (px_magnitude tok)"
    by (simp add: breakpoint_name_def parseInt_px_token breakpoint_bucket_spec)
  moreover have "map fst (breakpoint_variables v) = map breakpoint_name (breakpoints v)"
    by (simp add: breakpoint_variables_def comp_def)
  moreover have "extractVariables spec_media =
      Inr \<lparr>colors = [], spacing = [], breakpoints = [''600px'']\<rparr>"
    by code_simp
  moreover have "variables_text spec_media =
      Inr ''// Color Variables\<newline>\<newline>// Spacing Variables\<newline>\<newline>// Breakpoint Variables\<newline>$breakpoint-tablet: 600px;\<newline>''"
    by code_simp
  ultimately show ?thesis by blast
qed

theorem breakpoint_thresholds_witness:
  "is_px_token ''1280px'' \<and> breakpoint_name ''1280px'' = ''breakpoint-widescreen'' \<and>
   is_px_token ''1281px'' \<and> breakpoint_name ''1281px'' = ''breakpoint-ultrawide''"
proof -
  have t: "is_px_token ''1280px''" "is_px_token ''1281px''" by code_simp+
  have m: "spec_breakpoint_bucket (px_magnitude ''1280px'') = ''widescreen''"
    "spec_breakpoint_bucket (px_magnitude ''1281px'') = ''ultrawide''" by code_simp+
  from breakpoint_thresholds [OF t(1)] breakpoint_thresholds [OF t(2)] m t
  show ?thesis by simp
qed

text \<open>
  C8. The name of a color is the one that the table of the specification gives: the four
  overrides by exact, case-sensitive comparison (both spellings of white included), else
  \<^verbatim>\<open>color-\<close> and the decimal numeral of the 1-based position. The value \<^verbatim>\<open>#e6ac55\<close> is named
  \<^verbatim>\<open>color-accent\<close> at every position; \<^verbatim>\<open>#E6AC55\<close> is not.
\<close>

theorem color_naming:
  "color_name c i = spec_color_name c i \<and>
   radix_value 10 (string_of_nat (i + 1)) = i + 1 \<and>
   color_name ''#e6ac55'' i = ''color-accent'' \<and>
   color_name ''#E6AC55'' i = ''color-'' @ string_of_nat (i + 1) \<and>
   (i < length (colors v) \<longrightarrow>
      color_variables v ! i = (color_name (colors v ! i) i, colors v ! i)) \<and>
   variables_text brand_colors =
     Inr ''// Color Variables\<newline>$color-1: #123456;\<newline>$color-accent: #e6ac55;\<newline>$color-white: #FFFFFF;\<newline>$color-white: #ffffff;\<newline>$color-5: #E6AC55;\<newline>$color-dark: #0d0c0d;\<newline>$color-light: #f0f0f0;\<newline>$color-8: rgba(0, 0, 0, 0.5);\<newline>\<newline>// Spacing Variables\<newline>\<newline>// Breakpoint Variables\<newline>''"
proof -
  have "color_name c i = spec_color_name c i"
    by (simp add: color_name_def spec_color_name_def)
  moreover have "color_name ''#e6ac55'' i = ''color-accent''"
    by (simp add: color_name_def)
  moreover have "color_name ''#E6AC55'' i = ''color-'' @ string_of_nat (i + 1)"
    by (simp add: color_name_def)
  moreover have "i < length (colors v) \<longrightarrow>
      color_variables v ! i = (color_name (colors v ! i) i, colors v ! i)"
    by (simp add: color_variables_def nth_enumerate_eq)
  moreover have "variables_text brand_colors =
     Inr ''// Color Variables\<newline>$color-1: #123456;\<newline>$color-accent: #e6ac55;\<newline>$color-white: #FFFFFF;\<newline>$color-white: #ffffff;\<newline>$color-5: #E6AC55;\<newline>$color-dark: #0d0c0d;\<newline>$color-light: #f0f0f0;\<newline>$color-8: rgba(0, 0, 0, 0.5);\<newline>\<newline>// Spacing Variables\<newline>\<newline>// Breakpoint Variables\<newline>''"
    by code_simp
  ultimately show ?thesis using radix_value_string_of_nat by blast
qed

theorem color_naming_witness:
  "4 < length (colors \<lparr>colors = [''#111'', ''#222'', ''#333'', ''#444'', ''#e6ac55''],
                       spacing = [], breakpoints = []\<rparr>) \<and>
   color_variables \<lparr>colors = [''#111'', ''#222'', ''#333'', ''#444'', ''#e6ac55''],
                    spacing = [], breakpoints = []\<rparr> ! 4 = (''color-accent'', ''#e6ac55'') \<and>
   color_name ''#444'' 3 = ''color-4''"
proof -
  let ?v = "\<lparr>colors = [''#111'', ''#222'', ''#333'', ''#444'', ''#e6ac55''],
             spacing = [], breakpoints = []\<rparr>"
  have l: "4 < length (colors ?v)" by simp
  have n: "colors ?v ! 4 = ''#e6ac55''" by simp
  have s: "spec_color_name ''#444'' 3 = ''color-4''" by code_simp
  from color_naming [of "''#444''" 3 ?v] s have 1: "color_name ''#444'' 3 = ''color-4''"
    by simp
  from color_naming [of "''#e6ac55''" 4 ?v]
  have a: "color_name ''#e6ac55'' 4 = ''color-accent''"
    and e: "4 < length (colors ?v) \<longrightarrow>
      color_variables ?v ! 4 = (color_name (colors ?v ! 4) 4, colors ?v ! 4)"
    by blast+
  from e l have "color_variables ?v ! 4 = (color_name (colors ?v ! 4) 4, colors ?v ! 4)" ..
  then have "color_variables ?v ! 4 = (''color-accent'', ''#e6ac55'')"
    by (simp only: n a)
  with l 1 show ?thesis by blast
qed



text \<open>
  C10 (as amended). Every extracted spacing and breakpoint string is one or more decimal
  digits followed by \<^verbatim>\<open>px\<close>, and every extracted color is a \<^verbatim>\<open>#\<close> with three to six
  hexadecimal digits or an \<^verbatim>\<open>rgb(...)\<close> or \<^verbatim>\<open>rgba(...)\<close> token. Where no color token contains a
  line break, the lines of the variables text are the three headers, the empty lines that
  separate the sections and end the text, and one line of the shape \<^verbatim>\<open>$name: value;\<close> for each
  variable.
\<close>

theorem tokens_and_lines:
  assumes "extractVariables t = Inr v"
  shows "list_all is_px_token (spacing v) \<and> list_all is_px_token (breakpoints v) \<and>
         list_all is_color_token (colors v) \<and>
         (list_all (\<lambda>c. CHR 0x0A \<notin> set c) (colors v) \<longrightarrow>
            split_lines (generateVariablesFile v) =
              ''// Color Variables'' # map variable_line (color_variables v) @
              [[], ''// Spacing Variables''] @ map variable_line (spacing_variables v) @
              [[], ''// Breakpoint Variables''] @ map variable_line (breakpoint_variables v) @
              [[]] \<and>
            one_assignment_per_line (generateVariablesFile v)) \<and>
         list_all is_assignment_line (map variable_line (color_variables v)) \<and>
         list_all is_assignment_line (map variable_line (spacing_variables v)) \<and>
         list_all is_assignment_line (map variable_line (breakpoint_variables v))"
proof -
  note sh = extractVariables_shape [OF assms]
  have tok: "list_all is_px_token (spacing v)" "list_all is_px_token (breakpoints v)"
    "list_all is_color_token (colors v)"
    using sh(4-6) by (simp_all add: list_all_iff)
  have s: "\<forall>nv \<in> set (spacing_variables v). CHR 0x0A \<notin> set (variable_line nv)"
  proof
    fix nv assume "nv \<in> set (spacing_variables v)"
    then obtain i x where nv: "nv = (spacing_name (spacing v) x i, x)" and "x \<in> set (spacing v)"
      by (auto simp: spacing_variables_def in_set_enumerate_eq)
    with sh(5) have "CHR 0x0A \<notin> set x" by (simp add: px_token_no_newline)
    with spacing_name_no_newline show "CHR 0x0A \<notin> set (variable_line nv)"
      unfolding nv by (rule variable_line_no_newline)
  qed
  have b: "\<forall>nv \<in> set (breakpoint_variables v). CHR 0x0A \<notin> set (variable_line nv)"
  proof
    fix nv assume "nv \<in> set (breakpoint_variables v)"
    then obtain x where nv: "nv = (breakpoint_name x, x)" and "x \<in> set (breakpoints v)"
      by (auto simp: breakpoint_variables_def)
    with sh(6) have "CHR 0x0A \<notin> set x" by (simp add: px_token_no_newline)
    with breakpoint_name_no_newline show "CHR 0x0A \<notin> set (variable_line nv)"
      unfolding nv by (rule variable_line_no_newline)
  qed
  have shape: "list_all is_assignment_line (map variable_line vs)" for vs
    by (simp add: list_all_iff variable_line_shape)
  have "split_lines (generateVariablesFile v) =
          ''// Color Variables'' # map variable_line (color_variables v) @
          [[], ''// Spacing Variables''] @ map variable_line (spacing_variables v) @
          [[], ''// Breakpoint Variables''] @ map variable_line (breakpoint_variables v) @
          [[]] \<and>
        one_assignment_per_line (generateVariablesFile v)"
    if h: "list_all (\<lambda>c. CHR 0x0A \<notin> set c) (colors v)"
  proof -
    have c: "\<forall>nv \<in> set (color_variables v). CHR 0x0A \<notin> set (variable_line nv)"
    proof
      fix nv assume "nv \<in> set (color_variables v)"
      then obtain i x where nv: "nv = (color_name x i, x)" and "x \<in> set (colors v)"
        by (auto simp: color_variables_def in_set_enumerate_eq)
      with h have "CHR 0x0A \<notin> set x" by (simp add: list_all_iff)
      with color_name_no_newline show "CHR 0x0A \<notin> set (variable_line nv)"
        unfolding nv by (rule variable_line_no_newline)
    qed
    have l: "split_lines (generateVariablesFile v) =
          ''// Color Variables'' # map variable_line (color_variables v) @
          [[], ''// Spacing Variables''] @ map variable_line (spacing_variables v) @
          [[], ''// Breakpoint Variables''] @ map variable_line (breakpoint_variables v) @
          [[]]"
      using c s b by (rule variables_text_lines)
    have "one_assignment_per_line (generateVariablesFile v)"
      unfolding one_assignment_per_line_def l
      by (auto simp: list_all_iff is_header_line_def variable_line_shape)
    with l show ?thesis ..
  qed
  with tok shape show ?thesis by blast
qed

theorem tokens_and_lines_witness:
  "extractVariables brand_colors =
     Inr \<lparr>colors = [''#123456'', ''#e6ac55'', ''#FFFFFF'', ''#ffffff'', ''#E6AC55'',
                     ''#0d0c0d'', ''#f0f0f0'', ''rgba(0, 0, 0, 0.5)''],
          spacing = [], breakpoints = []\<rparr> \<and>
   list_all (\<lambda>c. CHR 0x0A \<notin> set c)
     [''#123456'', ''#e6ac55'', ''#FFFFFF'', ''#ffffff'', ''#E6AC55'',
      ''#0d0c0d'', ''#f0f0f0'', ''rgba(0, 0, 0, 0.5)''] \<and>
   list_all is_color_token
     [''#123456'', ''#e6ac55'', ''#FFFFFF'', ''#ffffff'', ''#E6AC55'',
      ''#0d0c0d'', ''#f0f0f0'', ''rgba(0, 0, 0, 0.5)''] \<and>
   one_assignment_per_line
     (generateVariablesFile
        \<lparr>colors = [''#123456'', ''#e6ac55'', ''#FFFFFF'', ''#ffffff'', ''#E6AC55'',
                   ''#0d0c0d'', ''#f0f0f0'', ''rgba(0, 0, 0, 0.5)''],
         spacing = [], breakpoints = []\<rparr>)"
proof -
  let ?v = "\<lparr>colors = [''#123456'', ''#e6ac55'', ''#FFFFFF'', ''#ffffff'', ''#E6AC55'',
                     ''#0d0c0d'', ''#f0f0f0'', ''rgba(0, 0, 0, 0.5)''],
          spacing = [], breakpoints = []\<rparr>"
  have e: "extractVariables brand_colors = Inr ?v" by code_simp
  have n: "list_all (\<lambda>c. CHR 0x0A \<notin> set c) (colors ?v)" by simp
  from tokens_and_lines [OF e] n
  have "list_all is_color_token (colors ?v)" and "one_assignment_per_line (generateVariablesFile ?v)"
    by blast+
  with e n show ?thesis by simp
qed

text \<open>
  C10 as stated fails: an \<^verbatim>\<open>rgb(...)\<close> token may contain a line break, and its assignment then
  takes two lines, neither of the shape \<^verbatim>\<open>$name: value;\<close>.
\<close>

theorem one_line_counterexample:
  "extractVariables multiline_color =
     Inr \<lparr>colors = [''rgb(0,\<newline>0,0)''], spacing = [], breakpoints = []\<rparr> \<and>
   split_lines
     (generateVariablesFile \<lparr>colors = [''rgb(0,\<newline>0,0)''], spacing = [], breakpoints = []\<rparr>) =
     [''// Color Variables'', ''$color-1: rgb(0,'', ''0,0);'', [], ''// Spacing Variables'', [],
      ''// Breakpoint Variables'', []] \<and>
   \<not> is_assignment_line ''$color-1: rgb(0,'' \<and> \<not> is_assignment_line ''0,0);'' \<and>
   \<not> one_assignment_per_line
     (generateVariablesFile \<lparr>colors = [''rgb(0,\<newline>0,0)''], spacing = [], breakpoints = []\<rparr>)"
  by code_simp

end
